theory Spec2Isabelle
  imports Main
begin

section \<open>Cards, players and the board\<close>

text \<open>
  A card and a player are JavaScript objects compared by reference. The model names each
  object by an identifier and keeps the mutable fields in a store, so that two references
  to one card see the same fields. Every reference of the source points to an object, so
  the store is total.
\<close>

type_synonym card_id = nat

type_synonym player_id = nat

record card =
  location :: string
  owner :: player_id
  controller :: player_id
  ctype :: string
  gigantic :: bool
  composedPart :: "card_id option"
  purgedBy :: "player_id option"
  selected :: bool
  opponentSelected :: bool
  selectable :: bool

text \<open>
  \<open>cards\<close> is the store of card objects, \<open>allCards\<close> is \<open>game.allCards\<close>,
  \<open>purgedCards\<close> is the field \<open>purgedCards\<close> of each actor object. \<open>raised\<close> is a
  history variable of the model: the events raised through \<open>game.raiseEvent\<close>, oldest
  first. The initiating actor \<open>purgedBy\<close> is a player, as in the spec.
\<close>

record game =
  cards :: "card_id \<Rightarrow> card"
  allCards :: "card_id list"
  purgedCards :: "player_id \<Rightarrow> card_id list"
  raised :: "(string \<times> card_id) list"

definition upd_card :: "card_id \<Rightarrow> (card \<Rightarrow> card) \<Rightarrow> game \<Rightarrow> game" where
  "upd_card c f g = g\<lparr>cards := (cards g)(c := f (cards g c))\<rparr>"

definition getType :: "card \<Rightarrow> string" where
  "getType k = ctype k"

section \<open>PurgeAction\<close>

record purge_action =
  name :: string
  effectMsg :: string
  pa_purgedBy :: "player_id option"

definition setup_action :: "purge_action \<Rightarrow> purge_action" where
  "setup_action a = a\<lparr>name := ''purge'', effectMsg := ''purge {0}''\<rparr>"

definition setDefaultProperties :: "purge_action \<Rightarrow> purge_action" where
  "setDefaultProperties a = a\<lparr>pa_purgedBy := None\<rparr>"

text \<open>
  \<open>Player.moveCard\<close> is called by \<open>purge\<close> and is not among the sources, so \<open>purge\<close>
  takes it as its first argument: owner, card, target location, board.
\<close>

type_synonym move_card = "player_id \<Rightarrow> card_id \<Rightarrow> string \<Rightarrow> game \<Rightarrow> game"

definition purge :: "move_card \<Rightarrow> purge_action \<Rightarrow> card_id \<Rightarrow> game \<Rightarrow> game" where
  "purge mv act c g =
     (let composed = (if gigantic (cards g c) then composedPart (cards g c) else None);
          g1 = mv (owner (cards g c)) c ''purged'' g
      in case pa_purgedBy act of
           None \<Rightarrow> g1
         | Some a \<Rightarrow>
             (let g2 = g1\<lparr>purgedCards := (purgedCards g1)(a := purgedCards g1 a @ [c])\<rparr>;
                  g3 = upd_card c (\<lambda>k. k\<lparr>purgedBy := Some a\<rparr>) g2
              in case composed of
                   None \<Rightarrow> g3
                 | Some p \<Rightarrow>
                     (let g4 = g3\<lparr>purgedCards := (purgedCards g3)(a := purgedCards g3 a @ [p])\<rparr>
                      in upd_card p (\<lambda>k. k\<lparr>purgedBy := Some a\<rparr>) g4)))"

text \<open>
  Modelled from the spec: \<open>Player.moveCard\<close>, the ownership-transfer primitive, is not
  among the sources. The spec says that it relocates the card and that a composite card is
  "a card with an auxiliary part that must move/purge together with its parent". This
  instance sets the location of the card and of its composed part; the theorem on
  \<open>purge\<close> holds for every primitive and the examples use this one.
\<close>

definition moveCard :: move_card where
  "moveCard pl c target g =
     (let g1 = upd_card c (\<lambda>k. k\<lparr>location := target\<rparr>) g
      in case composedPart (cards g c) of
           None \<Rightarrow> g1
         | Some p \<Rightarrow> upd_card p (\<lambda>k. k\<lparr>location := target\<rparr>) g1)"

text \<open>
  Modelled from the spec: the reaction registry is not among the sources. After section
  4.2 of the spec, a reaction binds an event name and a predicate on the event to a
  handler; resolving the handler may change the board in any way, raising further events
  included.
\<close>

record reaction =
  when_name :: string
  trigger :: "game \<Rightarrow> card_id \<Rightarrow> bool"
  effect :: "card_id \<Rightarrow> game \<Rightarrow> game"

text \<open>
  Modelled from the spec: the dispatcher is not among the sources. A reaction matches
  when its event name is the name of the raised event and its predicate holds of the
  event; the matching reactions are frozen on the board of the raise.
\<close>

definition matching :: "reaction list \<Rightarrow> string \<Rightarrow> card_id \<Rightarrow> game \<Rightarrow> reaction list" where
  "matching rs n c g = filter (\<lambda>r. when_name r = n \<and> trigger r g c) rs"

text \<open>
  Modelled from the spec: the matching reactions resolve one after the other, in
  registration order, each on the board the one before it leaves.
\<close>

definition settle :: "reaction list \<Rightarrow> card_id \<Rightarrow> game \<Rightarrow> game" where
  "settle ms c g = foldl (\<lambda>s r. effect r c s) g ms"

text \<open>
  Modelled from the spec: \<open>Game.raiseEvent\<close> is not among the sources. Raising an event
  notes it, lets the matching reactions settle, and runs the continuation of the event
  on the board they leave.
\<close>

definition raiseEvent ::
  "reaction list \<Rightarrow> string \<Rightarrow> card_id \<Rightarrow> (game \<Rightarrow> game) \<Rightarrow> game \<Rightarrow> game" where
  "raiseEvent rs n c handler g =
     handler (settle (matching rs n c g) c (g\<lparr>raised := raised g @ [(n, c)]\<rparr>))"

text \<open>
  Modelled from the spec: \<open>CardGameAction.createEvent\<close> is not among the sources. An
  event is a name, a payload (here the card) and a continuation.
\<close>

record event =
  ev_name :: string
  ev_card :: card_id
  ev_handler :: "game \<Rightarrow> game"

definition createEvent :: "string \<Rightarrow> card_id \<Rightarrow> (game \<Rightarrow> game) \<Rightarrow> event" where
  "createEvent n c h = \<lparr>ev_name = n, ev_card = c, ev_handler = h\<rparr>"

definition getEvent :: "reaction list \<Rightarrow> move_card \<Rightarrow> purge_action \<Rightarrow> card_id \<Rightarrow> event" where
  "getEvent rs mv act c =
     createEvent ''onCardPurged'' c
       (\<lambda>g. if location (cards g c) = ''play area''
            then raiseEvent rs ''onCardLeavesPlay'' c (purge mv act c) g
            else purge mv act c g)"

section \<open>SelectCardPrompt\<close>

subsection \<open>Numbers\<close>

text \<open>
  A stat is a JavaScript Number, an IEEE 754 double. \<open>Finite m e\<close> is the value
  \<open>m * 2 ^ e\<close>; the sign of zero is left out, since neither \<open>+\<close> nor \<open><=\<close> lets it
  show in the result of the card condition.
\<close>

datatype js_number = Finite int int | PosInfinity | NegInfinity | NaN

text \<open>
  The number of low bits that a magnitude has beyond the 53 bits of a double's
  significand.
\<close>

function shift_of :: "int \<Rightarrow> nat" where
  "shift_of n = (if n < 2 ^ 53 then 0 else Suc (shift_of (n div 2)))"
  by pat_completeness auto

termination
  by (relation "measure nat") auto

declare shift_of.simps [simp del]

text \<open>The least magnitude that rounds to an infinity.\<close>

definition overflow_threshold :: int where
  "overflow_threshold = 2 ^ 1024"

text \<open>
  The double nearest to \<open>m * 2 ^ e\<close>, ties to the even significand: the low bits beyond
  the significand, and those below the least exponent \<open>-1074\<close> of a double, are dropped
  and the rest is rounded up when they are more than half a unit, or half a unit with an
  odd significand left. A magnitude that reaches \<open>2 ^ 1024\<close> after rounding is an
  infinity.
\<close>

definition round_to_double :: "int \<Rightarrow> int \<Rightarrow> js_number" where
  "round_to_double m e =
     (let k = max (shift_of \<bar>m\<bar>) (nat (- 1074 - e));
          q = \<bar>m\<bar> div 2 ^ k;
          r = \<bar>m\<bar> mod 2 ^ k;
          up = (2 ^ k < 2 * r \<or> (2 * r = 2 ^ k \<and> odd q));
          q' = (if up then q + 1 else q);
          e' = e + int k
      in if 0 \<le> e' \<and> overflow_threshold \<le> q' * 2 ^ nat e'
         then (if m < 0 then NegInfinity else PosInfinity)
         else Finite (sgn m * q') e')"

text \<open>
  \<open>x + y\<close> on Numbers: NaN is contagious, the infinities of opposite signs add to NaN,
  and two finite values add to the double nearest to their exact sum.
\<close>

fun js_add :: "js_number \<Rightarrow> js_number \<Rightarrow> js_number" where
  "js_add NaN y = NaN"
| "js_add x NaN = NaN"
| "js_add PosInfinity NegInfinity = NaN"
| "js_add NegInfinity PosInfinity = NaN"
| "js_add PosInfinity y = PosInfinity"
| "js_add NegInfinity y = NegInfinity"
| "js_add x PosInfinity = PosInfinity"
| "js_add x NegInfinity = NegInfinity"
| "js_add (Finite m1 e1) (Finite m2 e2) =
     (let e = min e1 e2
      in round_to_double (m1 * 2 ^ nat (e1 - e) + m2 * 2 ^ nat (e2 - e)) e)"

text \<open>\<open>x <= y\<close> on Numbers: false as soon as one side is NaN.\<close>

fun js_le :: "js_number \<Rightarrow> js_number \<Rightarrow> bool" where
  "js_le NaN y = False"
| "js_le x NaN = False"
| "js_le NegInfinity y = True"
| "js_le x PosInfinity = True"
| "js_le PosInfinity y = False"
| "js_le x NegInfinity = False"
| "js_le (Finite m1 e1) (Finite m2 e2) =
     (let e = min e1 e2 in m1 * 2 ^ nat (e1 - e) \<le> m2 * 2 ^ nat (e2 - e))"

text \<open>
  The Number of an integer value; every integer of magnitude up to \<open>2 ^ 53\<close> is a
  double.
\<close>

definition js_int :: "int \<Rightarrow> js_number" where
  "js_int n = Finite n 0"

subsection \<open>The properties object\<close>

text \<open>
  What \<open>onSelect\<close> receives: one card, the collection of the selected cards, or
  \<open>undefined\<close> when the first element of an empty selection is read.
\<close>

datatype card_param = Undefined | OneCard card_id | Cards "card_id list"

record button =
  btext :: string
  barg :: string

datatype card_type_option = OneType string | TypeList "string list"

text \<open>
  The properties object as the caller passes it, with the keys of the class comment. A key
  the caller leaves out is \<open>None\<close> (\<open>undefined\<close>); \<open>multiSelect\<close> is read for its truth
  value only. The callbacks read and change the board, so they take it and return it;
  the stat functions and the eligibility predicate only read it. Stats are Numbers.
  \<open>opt_source\<close> holds the \<open>name\<close> of the source object.
\<close>

record options =
  opt_numCards :: "int option"
  opt_multiSelect :: bool
  opt_additionalButtons :: "button list option"
  opt_activePromptTitle :: "string option"
  opt_waitingPromptTitle :: "string option"
  opt_maxStat :: "(game \<Rightarrow> js_number) option"
  opt_cardStat :: "(game \<Rightarrow> card_id \<Rightarrow> js_number) option"
  opt_cardCondition :: "(game \<Rightarrow> card_id \<Rightarrow> bool) option"
  opt_cardType :: "card_type_option option"
  opt_onSelect :: "(player_id \<Rightarrow> card_param \<Rightarrow> game \<Rightarrow> bool \<times> game) option"
  opt_onMenuCommand :: "(player_id \<Rightarrow> string \<Rightarrow> game \<Rightarrow> bool \<times> game) option"
  opt_onCancel :: "(player_id \<Rightarrow> game \<Rightarrow> game) option"
  opt_onCardToggle :: "(player_id \<Rightarrow> card_id \<Rightarrow> game \<Rightarrow> game) option"
  opt_source :: "string option"

text \<open>The same object after the constructor has filled in the defaults.\<close>

record properties =
  numCards :: int
  multiSelect :: bool
  additionalButtons :: "button list"
  activePromptTitle :: "string option"
  waitingPromptTitle :: "string option"
  maxStat :: "(game \<Rightarrow> js_number) option"
  cardStat :: "(game \<Rightarrow> card_id \<Rightarrow> js_number) option"
  cardCondition :: "game \<Rightarrow> card_id \<Rightarrow> bool"
  cardType :: "string list"
  onSelect :: "player_id \<Rightarrow> card_param \<Rightarrow> game \<Rightarrow> bool \<times> game"
  onMenuCommand :: "player_id \<Rightarrow> string \<Rightarrow> game \<Rightarrow> bool \<times> game"
  onCancel :: "player_id \<Rightarrow> game \<Rightarrow> game"
  onCardToggle :: "(player_id \<Rightarrow> card_id \<Rightarrow> game \<Rightarrow> game) option"
  source :: "string option"

text \<open>JavaScript truth of a string that may be absent: \<open>undefined\<close> and \<open>''\<close> are falsy.\<close>

definition truthy :: "string option \<Rightarrow> bool" where
  "truthy t = (case t of None \<Rightarrow> False | Some s \<Rightarrow> s \<noteq> [])"

text \<open>\<open>a || b\<close> on strings: the first operand when it is truthy, else the second.\<close>

definition or_else :: "string option \<Rightarrow> string \<Rightarrow> string" where
  "or_else t d = (case t of None \<Rightarrow> d | Some s \<Rightarrow> if s = [] then d else s)"

text \<open>
  \<open>defaultProperties\<close> and the lines of the constructor that complete the properties
  object: the waiting title taken from the source, \<open>_.defaults\<close>, and the card type
  wrapped into an array. The source's defaults have seven keys: \<open>numCards\<close>,
  \<open>additionalButtons\<close>, \<open>cardCondition\<close>, \<open>cardType\<close>, \<open>onSelect\<close>,
  \<open>onMenuCommand\<close> and \<open>onCancel\<close>; the other fields of the record are absent there
  and \<open>completeProperties\<close> does not read them.
\<close>

definition defaultProperties :: properties where
  "defaultProperties =
     \<lparr>numCards = 1, multiSelect = False, additionalButtons = [],
      activePromptTitle = None, waitingPromptTitle = None, maxStat = None, cardStat = None,
      cardCondition = (\<lambda>g c. True),
      cardType = [''attachment'', ''character'', ''event'', ''location''],
      onSelect = (\<lambda>pl p g. (True, g)),
      onMenuCommand = (\<lambda>pl a g. (True, g)),
      onCancel = (\<lambda>pl g. g),
      onCardToggle = None, source = None\<rparr>"

definition or_default :: "'a option \<Rightarrow> 'a \<Rightarrow> 'a" where
  "or_default v d = (case v of None \<Rightarrow> d | Some x \<Rightarrow> x)"

definition completeProperties :: "options \<Rightarrow> properties" where
  "completeProperties opts =
     \<lparr>numCards = or_default (opt_numCards opts) (numCards defaultProperties),
      multiSelect = opt_multiSelect opts,
      additionalButtons =
        or_default (opt_additionalButtons opts) (additionalButtons defaultProperties),
      activePromptTitle = opt_activePromptTitle opts,
      waitingPromptTitle =
        (case opt_source opts of
           None \<Rightarrow> opt_waitingPromptTitle opts
         | Some src \<Rightarrow>
             if \<not> truthy (opt_waitingPromptTitle opts)
             then Some (''Waiting for opponent to use '' @ src)
             else opt_waitingPromptTitle opts),
      maxStat = opt_maxStat opts,
      cardStat = opt_cardStat opts,
      cardCondition = or_default (opt_cardCondition opts) (cardCondition defaultProperties),
      cardType =
        (case opt_cardType opts of
           None \<Rightarrow> cardType defaultProperties
         | Some (TypeList ts) \<Rightarrow> ts
         | Some (OneType t) \<Rightarrow> [t]),
      onSelect = or_default (opt_onSelect opts) (onSelect defaultProperties),
      onMenuCommand = or_default (opt_onMenuCommand opts) (onMenuCommand defaultProperties),
      onCancel = or_default (opt_onCancel opts) (onCancel defaultProperties),
      onCardToggle = opt_onCardToggle opts,
      source = opt_source opts\<rparr>"

subsection \<open>The prompt object\<close>

text \<open>
  \<open>cardCondition_this\<close> is the closure stored in \<open>this.cardCondition\<close>; it reads
  \<open>this.selectedCards\<close> when it is called, so it takes the selection of that moment.
  A snapshot of \<open>previouslySelectedCards\<close> is the card, its \<open>selected\<close> and its
  \<open>opponentSelected\<close>. \<open>completed\<close> is the flag of the base class \<open>UiPrompt\<close>.
  \<open>delivered\<close> is a history variable of the model: the arguments handed to \<open>onSelect\<close>
  so far, oldest first. No function reads it.
\<close>

record prompt =
  choosingPlayer :: player_id
  props :: properties
  cardCondition_this :: "card_id list \<Rightarrow> game \<Rightarrow> card_id \<Rightarrow> bool"
  selectedCards :: "card_id list"
  previouslySelectedCards :: "(card_id \<times> bool \<times> bool) list"
  completed :: bool
  delivered :: "card_param list"

datatype error = ConfigurationError

text \<open>
  The closure that \<open>createMaxStatCardCondition\<close> returns, applied to the selection and
  the board of the call. \<open>_.reduce\<close> adds the stats of the selected cards from the left,
  starting from \<open>0\<close>, and every \<open>+\<close> is the addition of Numbers.
\<close>

definition createMaxStatCardCondition ::
  "properties \<Rightarrow> (game \<Rightarrow> js_number) \<Rightarrow> (game \<Rightarrow> card_id \<Rightarrow> js_number) \<Rightarrow>
   card_id list \<Rightarrow> game \<Rightarrow> card_id \<Rightarrow> bool" where
  "createMaxStatCardCondition ps maxStat_f cardStat_f sel g c =
     (if \<not> cardCondition ps g c then False
      else
        (let currentStatSum = foldl (\<lambda>sum x. js_add sum (cardStat_f g x)) (js_int 0) sel
         in js_le (js_add (cardStat_f g c) currentStatSum) (maxStat_f g) \<or> c \<in> set sel))"

definition marked :: "game \<Rightarrow> card_id \<Rightarrow> bool" where
  "marked g c = (selected (cards g c) \<or> opponentSelected (cards g c))"

definition savePreviouslySelectedCards :: "prompt \<Rightarrow> game \<Rightarrow> prompt \<times> game" where
  "savePreviouslySelectedCards pr g =
     (let prev = map (\<lambda>c. (c, selected (cards g c), opponentSelected (cards g c)))
                   (filter (marked g) (allCards g))
      in (pr\<lparr>previouslySelectedCards := prev\<rparr>,
          fold (\<lambda>sel. upd_card (fst sel)
                  (\<lambda>k. k\<lparr>selected := False, opponentSelected := False\<rparr>)) prev g))"

text \<open>
  The constructor. The source has no \<open>throw\<close>, so no branch of \<open>construct\<close> fails;
  \<open>SelectCardPrompt\<close> gives its result as a value that could carry an error.
\<close>

definition construct :: "game \<Rightarrow> player_id \<Rightarrow> options \<Rightarrow> prompt \<times> game" where
  "construct g pl opts =
     (let ps = completeProperties opts;
          cond = (case (maxStat ps, cardStat ps) of
                    (Some m, Some s) \<Rightarrow> createMaxStatCardCondition ps m s
                  | _ \<Rightarrow> (\<lambda>sel. cardCondition ps))
      in savePreviouslySelectedCards
           \<lparr>choosingPlayer = pl, props = ps, cardCondition_this = cond, selectedCards = [],
            previouslySelectedCards = [], completed = False, delivered = []\<rparr> g)"

definition SelectCardPrompt :: "game \<Rightarrow> player_id \<Rightarrow> options \<Rightarrow> error + prompt \<times> game" where
  "SelectCardPrompt g pl opts = Inr (construct g pl opts)"

subsection \<open>Highlighting and the views\<close>

definition highlightSelectableCards :: "prompt \<Rightarrow> game \<Rightarrow> game" where
  "highlightSelectableCards pr g =
     fold (\<lambda>c s. if getType (cards s c) \<in> set (cardType (props pr))
                  then upd_card c
                         (\<lambda>k. k\<lparr>selectable := cardCondition_this pr (selectedCards pr) s c\<rparr>) s
                  else s)
       (allCards g) g"

definition activeCondition :: "prompt \<Rightarrow> player_id \<Rightarrow> bool" where
  "activeCondition pr player = (player = choosingPlayer pr)"

text \<open>
  A numeric property read by its key. The properties object has the key \<open>numCards\<close>;
  any other key of a number, such as \<open>numCard\<close>, is \<open>undefined\<close>.
\<close>

definition numeric_property :: "properties \<Rightarrow> string \<Rightarrow> int option" where
  "numeric_property ps key = (if key = ''numCards'' then Some (numCards ps) else None)"

text \<open>The decimal digits of a natural number, as \<open>String(n)\<close> prints them.\<close>

fun decimal :: "nat \<Rightarrow> string" where
  "decimal n =
     (if n div 10 = 0 then [] else decimal (n div 10)) @ [''0123456789'' ! (n mod 10)]"

declare decimal.simps [simp del]

text \<open>String concatenation converts its operand: \<open>undefined\<close> reads "undefined".\<close>

definition to_string :: "int option \<Rightarrow> string" where
  "to_string v =
     (case v of
        None \<Rightarrow> ''undefined''
      | Some i \<Rightarrow> (if i < 0 then ''-'' else []) @ decimal (nat \<bar>i\<bar>))"

definition defaultActivePromptTitle :: "prompt \<Rightarrow> string" where
  "defaultActivePromptTitle pr =
     (if numeric_property (props pr) ''numCard'' = Some 1 then ''Select a card''
      else ''Select '' @ to_string (numeric_property (props pr) ''numCard'') @ '' cards'')"

record active_prompt =
  ap_selectCard :: bool
  menuTitle :: string
  buttons :: "button list"
  promptTitle :: "string option"

definition activePrompt :: "prompt \<Rightarrow> active_prompt" where
  "activePrompt pr =
     \<lparr>ap_selectCard = True,
      menuTitle = or_else (activePromptTitle (props pr)) (defaultActivePromptTitle pr),
      buttons = additionalButtons (props pr) @ [\<lparr>btext = ''Done'', barg = ''done''\<rparr>],
      promptTitle = source (props pr)\<rparr>"

text \<open>The waiting view has one field, \<open>menuTitle\<close>; \<open>waitingPrompt\<close> gives its value.\<close>

definition waitingPrompt :: "prompt \<Rightarrow> string" where
  "waitingPrompt pr =
     or_else (waitingPromptTitle (props pr)) ''Waiting for opponent''"

subsection \<open>Selecting, delivering and leaving\<close>

definition clearSelection :: "prompt \<Rightarrow> game \<Rightarrow> prompt \<times> game" where
  "clearSelection pr g =
     (let g1 = fold (\<lambda>c. upd_card c (\<lambda>k. k\<lparr>selected := False, opponentSelected := False\<rparr>))
                 (selectedCards pr) g;
          g2 = fold (\<lambda>c. upd_card c (\<lambda>k. k\<lparr>selectable := False\<rparr>)) (allCards g1) g1;
          g3 = fold (\<lambda>sel. upd_card (fst sel)
                       (\<lambda>k. k\<lparr>selected := fst (snd sel), opponentSelected := snd (snd sel)\<rparr>))
                 (previouslySelectedCards pr) g2
      in (pr\<lparr>selectedCards := []\<rparr>, g3))"

text \<open>
  \<open>complete\<close> clears the selection and calls \<open>UiPrompt.complete\<close>, which is not among
  the sources. After the spec, completion is terminal: the base class marks the prompt as
  completed, and \<open>isComplete\<close> reads the mark.
\<close>

definition complete :: "prompt \<Rightarrow> game \<Rightarrow> prompt \<times> game" where
  "complete pr g = (case clearSelection pr g of (pr1, g1) \<Rightarrow> (pr1\<lparr>completed := True\<rparr>, g1))"

definition isComplete :: "prompt \<Rightarrow> bool" where
  "isComplete pr = completed pr"

text \<open>
  \<open>continue\<close> ends with \<open>UiPrompt.continue\<close>, which is not among the sources; the model
  returns whether the prompt is complete and leaves the views it refreshes out.
\<close>

definition continue :: "prompt \<Rightarrow> game \<Rightarrow> bool \<times> game" where
  "continue pr g =
     (let g1 = (if \<not> isComplete pr then highlightSelectableCards pr g else g)
      in (isComplete pr, g1))"

definition checkCardCondition :: "prompt \<Rightarrow> game \<Rightarrow> card_id \<Rightarrow> bool" where
  "checkCardCondition pr g c =
     (getType (cards g c) \<in> set (cardType (props pr)) \<and>
      cardCondition_this pr (selectedCards pr) g c)"

definition selectCard :: "prompt \<Rightarrow> card_id \<Rightarrow> game \<Rightarrow> bool \<times> prompt \<times> game" where
  "selectCard pr c g =
     (if numCards (props pr) \<noteq> 0 \<and> int (length (selectedCards pr)) \<ge> numCards (props pr) \<and>
         c \<notin> set (selectedCards pr)
      then (False, pr, g)
      else
        (let g1 = (if choosingPlayer pr \<noteq> controller (cards g c)
                   then upd_card c (\<lambda>k. k\<lparr>opponentSelected := \<not> opponentSelected k\<rparr>) g
                   else upd_card c (\<lambda>k. k\<lparr>selected := \<not> selected k\<rparr>) g);
             pr1 = (if selected (cards g1 c) \<or> opponentSelected (cards g1 c)
                    then pr\<lparr>selectedCards := selectedCards pr @ [c]\<rparr>
                    else pr\<lparr>selectedCards := filter (\<lambda>x. x \<noteq> c) (selectedCards pr)\<rparr>);
             g2 = (case onCardToggle (props pr) of
                     None \<Rightarrow> g1
                   | Some f \<Rightarrow> f (choosingPlayer pr) c g1)
         in (True, pr1, g2)))"

definition cardParam :: "prompt \<Rightarrow> card_param" where
  "cardParam pr =
     (if numCards (props pr) = 1 \<and> \<not> multiSelect (props pr)
      then (case selectedCards pr of [] \<Rightarrow> Undefined | c # _ \<Rightarrow> OneCard c)
      else Cards (selectedCards pr))"

definition fireOnSelect :: "prompt \<Rightarrow> game \<Rightarrow> prompt \<times> game" where
  "fireOnSelect pr g =
     (let p = cardParam pr;
          pr0 = pr\<lparr>delivered := delivered pr @ [p]\<rparr>
      in case onSelect (props pr) (choosingPlayer pr) p g of
           (ok, g1) \<Rightarrow> if ok then complete pr0 g1 else clearSelection pr0 g1)"

text \<open>
  The value a handler returns is \<open>Some False\<close> for \<open>return false\<close> and \<open>None\<close> where
  the source falls off the end or returns nothing.
\<close>

definition onCardClicked ::
  "prompt \<Rightarrow> player_id \<Rightarrow> card_id \<Rightarrow> game \<Rightarrow> bool option \<times> prompt \<times> game" where
  "onCardClicked pr player c g =
     (if player \<noteq> choosingPlayer pr then (Some False, pr, g)
      else if \<not> checkCardCondition pr g c then (Some False, pr, g)
      else
        (case selectCard pr c g of
           (ok, pr1, g1) \<Rightarrow>
             if \<not> ok then (Some False, pr1, g1)
             else if numCards (props pr1) = 1 \<and> length (selectedCards pr1) = 1 \<and>
                     \<not> multiSelect (props pr1)
             then (case fireOnSelect pr1 g1 of (pr2, g2) \<Rightarrow> (None, pr2, g2))
             else (None, pr1, g1)))"

definition onMenuCommand_prompt ::
  "prompt \<Rightarrow> player_id \<Rightarrow> string \<Rightarrow> game \<Rightarrow> bool option \<times> prompt \<times> game" where
  "onMenuCommand_prompt pr player arg g =
     (if player \<noteq> choosingPlayer pr then (Some False, pr, g)
      else if arg \<noteq> ''done''
      then (case onMenuCommand (props pr) player arg g of
              (ok, g1) \<Rightarrow>
                if ok then (case complete pr g1 of (pr2, g2) \<Rightarrow> (None, pr2, g2))
                else (None, pr, g1))
      else if length (selectedCards pr) > 0
      then (case fireOnSelect pr g of (pr2, g2) \<Rightarrow> (None, pr2, g2))
      else (case complete pr (onCancel (props pr) player g) of (pr2, g2) \<Rightarrow> (None, pr2, g2)))"

subsection \<open>The prompt on the stack\<close>

text \<open>
  Modelled from the spec: the prompt stack and its driver loop are not among the sources.
  After sections 4.3 and 5 of the spec, the active prompt receives the card clicks and
  the menu commands of the players and is stepped by the driver.
\<close>

datatype input = CardClicked player_id card_id | MenuCommand player_id string | Continue

text \<open>
  Modelled from the spec: an input reaches the handler of the active prompt; a completed
  prompt is popped from the stack, so it receives nothing more.
\<close>

definition step :: "input \<Rightarrow> prompt \<times> game \<Rightarrow> prompt \<times> game" where
  "step i st =
     (case st of
        (pr, g) \<Rightarrow>
          if completed pr then (pr, g)
          else
            (case i of
               CardClicked pl c \<Rightarrow> snd (onCardClicked pr pl c g)
             | MenuCommand pl a \<Rightarrow> snd (onMenuCommand_prompt pr pl a g)
             | Continue \<Rightarrow> (pr, snd (continue pr g))))"

text \<open>Modelled from the spec: the driver feeds the inputs to the prompt in their order.\<close>

definition run :: "input list \<Rightarrow> prompt \<times> game \<Rightarrow> prompt \<times> game" where
  "run ins st = fold step ins st"

section \<open>Predicates of the statements\<close>

text \<open>
  A card carries its own marker when it has exactly the marker that \<open>selectCard\<close> gives
  to a card of its controller: \<open>opponentSelected\<close> when the chooser does not control it,
  \<open>selected\<close> when the chooser does, and not the other one.
\<close>

definition own_marker :: "prompt \<Rightarrow> game \<Rightarrow> card_id \<Rightarrow> bool" where
  "own_marker pr g c =
     (if choosingPlayer pr \<noteq> controller (cards g c)
      then opponentSelected (cards g c) \<and> \<not> selected (cards g c)
      else selected (cards g c) \<and> \<not> opponentSelected (cards g c))"

text \<open>
  A callback is quiet when it leaves \<open>game.allCards\<close> and the selection markers of
  every card as they are. The restoration theorem asks this of the caller's callbacks.
\<close>

definition quiet :: "(game \<Rightarrow> game) \<Rightarrow> bool" where
  "quiet f \<longleftrightarrow>
     (\<forall>g. allCards (f g) = allCards g \<and>
          (\<forall>c. selected (cards (f g) c) = selected (cards g c) \<and>
               opponentSelected (cards (f g) c) = opponentSelected (cards g c)))"

definition callbacks_quiet :: "properties \<Rightarrow> bool" where
  "callbacks_quiet ps \<longleftrightarrow>
     (\<forall>pl p. quiet (\<lambda>g. snd (onSelect ps pl p g))) \<and>
     (\<forall>pl a. quiet (\<lambda>g. snd (onMenuCommand ps pl a g))) \<and>
     (\<forall>pl. quiet (onCancel ps pl)) \<and>
     (case onCardToggle ps of None \<Rightarrow> True | Some f \<Rightarrow> \<forall>pl c. quiet (f pl c))"

text \<open>
  The snapshot that the constructor takes of a board, and a board on which the markers
  of the cards of \<open>g0\<close> are those of \<open>g0\<close> and no card of \<open>g0\<close> is highlighted.
\<close>

definition snapshot :: "game \<Rightarrow> (card_id \<times> bool \<times> bool) list" where
  "snapshot g =
     map (\<lambda>c. (c, selected (cards g c), opponentSelected (cards g c)))
       (filter (marked g) (allCards g))"

definition restored :: "game \<Rightarrow> game \<Rightarrow> bool" where
  "restored g0 g \<longleftrightarrow>
     (\<forall>c\<in>set (allCards g0).
        selected (cards g c) = selected (cards g0 c) \<and>
        opponentSelected (cards g c) = opponentSelected (cards g0 c) \<and>
        \<not> selectable (cards g c))"

text \<open>
  What holds of a board \<open>g\<close> at the exit of a prompt constructed on \<open>g0\<close> whatever the
  caller's callbacks do: the cards of \<open>game.allCards\<close> that were marked on \<open>g0\<close> have
  the markers of \<open>g0\<close>, and no card of \<open>game.allCards\<close> is highlighted.
\<close>

definition premarked_restored :: "game \<Rightarrow> game \<Rightarrow> bool" where
  "premarked_restored g0 g \<longleftrightarrow>
     (\<forall>c\<in>set (allCards g0). marked g0 c \<longrightarrow>
        selected (cards g c) = selected (cards g0 c) \<and>
        opponentSelected (cards g c) = opponentSelected (cards g0 c))"

definition dimmed :: "game \<Rightarrow> bool" where
  "dimmed g \<longleftrightarrow> (\<forall>c\<in>set (allCards g). \<not> selectable (cards g c))"

definition leaving :: "game \<Rightarrow> prompt \<times> game \<Rightarrow> bool" where
  "leaving g0 st \<longleftrightarrow>
     previouslySelectedCards (fst st) = snapshot g0 \<and>
     (completed (fst st) \<longrightarrow>
        premarked_restored g0 (snd st) \<and> dimmed (snd st) \<and> selectedCards (fst st) = [])"

text \<open>
  The invariant of a prompt constructed on \<open>g0\<close>: it holds the snapshot of \<open>g0\<close>, and a
  marked card of the game is in the working selection or was marked on \<open>g0\<close>. Once the
  prompt has completed, the board is restored.
\<close>

definition following :: "game \<Rightarrow> properties \<Rightarrow> prompt \<Rightarrow> game \<Rightarrow> bool" where
  "following g0 ps pr g \<longleftrightarrow>
     allCards g = allCards g0 \<and> props pr = ps \<and> previouslySelectedCards pr = snapshot g0 \<and>
     (\<forall>c\<in>set (allCards g0). marked g c \<longrightarrow> c \<in> set (selectedCards pr) \<or> marked g0 c)"

definition tracked :: "game \<Rightarrow> properties \<Rightarrow> prompt \<times> game \<Rightarrow> bool" where
  "tracked g0 ps st \<longleftrightarrow>
     following g0 ps (fst st) (snd st) \<and>
     (completed (fst st) \<longrightarrow> restored g0 (snd st) \<and> selectedCards (fst st) = [])"

text \<open>
  The caller's \<open>onCardToggle\<close>, when there is one, leaves \<open>game.allCards\<close>, the
  selection markers and the controller of every card as they are.
\<close>

definition toggle_steady :: "properties \<Rightarrow> bool" where
  "toggle_steady ps \<longleftrightarrow>
     (case onCardToggle ps of
        None \<Rightarrow> True
      | Some f \<Rightarrow>
          \<forall>pl c g. allCards (f pl c g) = allCards g \<and>
            (\<forall>x. selected (cards (f pl c g) x) = selected (cards g x) \<and>
                 opponentSelected (cards (f pl c g) x) = opponentSelected (cards g x) \<and>
                 controller (cards (f pl c g) x) = controller (cards g x)))"

text \<open>
  The invariant of the working selection: no card twice, cards of the game only, each
  member with its own marker and no other card of the game marked.
\<close>

definition consistent :: "prompt \<Rightarrow> game \<Rightarrow> bool" where
  "consistent pr g \<longleftrightarrow>
     distinct (selectedCards pr) \<and> set (selectedCards pr) \<subseteq> set (allCards g) \<and>
     (\<forall>c\<in>set (allCards g).
        if c \<in> set (selectedCards pr) then own_marker pr g c else \<not> marked g c)"

definition picking :: "game \<Rightarrow> properties \<Rightarrow> prompt \<times> game \<Rightarrow> bool" where
  "picking g0 ps st \<longleftrightarrow>
     consistent (fst st) (snd st) \<and> allCards (snd st) = allCards g0 \<and> props (fst st) = ps \<and>
     \<not> completed (fst st)"

text \<open>A sequence of card clicks, each by a player on a card, as inputs of the prompt.\<close>

definition clicks :: "(player_id \<times> card_id) list \<Rightarrow> input list" where
  "clicks cs = map (\<lambda>(pl, c). CardClicked pl c) cs"

section \<open>Example boards and configurations\<close>

definition blank_card :: card where
  "blank_card =
     \<lparr>location = ''deck'', owner = 0, controller = 0, ctype = ''character'', gigantic = False,
      composedPart = None, purgedBy = None, selected = False, opponentSelected = False,
      selectable = False\<rparr>"

text \<open>
  Card 1 is a gigantic card in play with its part 2; card 3 names card 4 as a composed
  part but is not gigantic.
\<close>

definition titan_board :: game where
  "titan_board =
     \<lparr>cards = (\<lambda>_. blank_card)
        (1 := blank_card\<lparr>location := ''play area'', gigantic := True, composedPart := Some 2\<rparr>,
         2 := blank_card\<lparr>location := ''play area'', gigantic := True\<rparr>,
         3 := blank_card\<lparr>location := ''hand'', composedPart := Some 4\<rparr>),
      allCards = [1, 2, 3, 4], purgedCards = (\<lambda>_. []), raised = []\<rparr>"

definition purger :: purge_action where
  "purger = \<lparr>name = ''purge'', effectMsg = ''purge {0}'', pa_purgedBy = Some 7\<rparr>"

text \<open>
  A reaction to a card leaving play that notes on card 3 whether the leaving card is
  still in the play area when the reaction resolves.
\<close>

definition watcher :: reaction where
  "watcher =
     \<lparr>when_name = ''onCardLeavesPlay'', trigger = (\<lambda>g c. True),
      effect = (\<lambda>c g. upd_card 3
                  (\<lambda>k. k\<lparr>selectable := (location (cards g c) = ''play area'')\<rparr>) g)\<rparr>"

text \<open>
  Five cards: player 0 controls 1, 3 and 5, player 1 controls 2 and 4; 3 and 4 carry
  selection markers of an earlier prompt; 5 is of a type outside the default filter.
\<close>

definition table_board :: game where
  "table_board =
     \<lparr>cards = (\<lambda>_. blank_card)
        (1 := blank_card\<lparr>location := ''play area''\<rparr>,
         2 := blank_card\<lparr>location := ''play area'', owner := 1, controller := 1\<rparr>,
         3 := blank_card\<lparr>location := ''play area'', selected := True\<rparr>,
         4 := blank_card\<lparr>location := ''hand'', owner := 1, controller := 1,
                opponentSelected := True, selectable := True\<rparr>,
         5 := blank_card\<lparr>location := ''hand'', ctype := ''upgrade''\<rparr>),
      allCards = [1, 2, 3, 4, 5], purgedCards = (\<lambda>_. []), raised = []\<rparr>"

definition no_options :: options where
  "no_options =
     \<lparr>opt_numCards = None, opt_multiSelect = False, opt_additionalButtons = None,
      opt_activePromptTitle = None, opt_waitingPromptTitle = None, opt_maxStat = None,
      opt_cardStat = None, opt_cardCondition = None, opt_cardType = None, opt_onSelect = None,
      opt_onMenuCommand = None, opt_onCancel = None, opt_onCardToggle = None,
      opt_source = None\<rparr>"

text \<open>A stat bound of 5 where the stat of a card is its number.\<close>

definition stat_options :: options where
  "stat_options =
     no_options\<lparr>opt_numCards := Some 0, opt_maxStat := Some (\<lambda>g. js_int 5),
       opt_cardStat := Some (\<lambda>g c. js_int (int c))\<rparr>"

text \<open>
  A stat bound of \<open>2 ^ 53\<close>, which card 3 reaches by itself; every other card has the
  stat 1.
\<close>

definition large_stat_options :: options where
  "large_stat_options =
     no_options\<lparr>opt_numCards := Some 0, opt_maxStat := Some (\<lambda>g. js_int (2 ^ 53)),
       opt_cardStat := Some (\<lambda>g c. if c = 3 then js_int (2 ^ 53) else js_int 1)\<rparr>"

text \<open>A stat bound with no extractor.\<close>

definition only_maxStat :: options where
  "only_maxStat = no_options\<lparr>opt_numCards := Some 0, opt_maxStat := Some (\<lambda>g. js_int 0)\<rparr>"

definition two_options :: options where
  "two_options = no_options\<lparr>opt_numCards := Some 2\<rparr>"

text \<open>The chooser has picked cards 1 and 2 under a bound of two.\<close>

definition two_picked :: "prompt \<times> game" where
  "two_picked = run [CardClicked 0 1, CardClicked 0 2] (construct table_board 0 two_options)"

definition one_options :: options where
  "one_options = no_options\<lparr>opt_numCards := Some 1\<rparr>"

text \<open>
  A caller that accepts the selection of cards 1 and 2 only. In the first run the
  chooser offers card 1 alone, is refused, then offers both; in the second the chooser
  withdraws the only pick and cancels.
\<close>

definition picky_options :: options where
  "picky_options =
     no_options\<lparr>opt_numCards := Some 2,
       opt_onSelect := Some (\<lambda>pl p g. (p = Cards [1, 2], g))\<rparr>"

definition accepted_inputs :: "input list" where
  "accepted_inputs =
     [CardClicked 0 1, MenuCommand 0 ''done'', Continue, CardClicked 0 1, CardClicked 0 2,
      MenuCommand 0 ''done'']"

definition cancelled_inputs :: "input list" where
  "cancelled_inputs = [CardClicked 0 2, CardClicked 0 2, MenuCommand 0 ''done'']"

text \<open>
  Player 1 chooses under a bound of two and the caller refuses every selection. Card 4
  is controlled by the chooser and carries \<open>opponentSelected\<close> from an earlier prompt.
  The chooser offers card 2 and is refused, which writes the earlier markers back while
  the prompt stays active, then picks cards 4 and 2: the selection is full and card 4 is
  a member of it.
\<close>

definition refusing_options :: options where
  "refusing_options =
     no_options\<lparr>opt_numCards := Some 2, opt_onSelect := Some (\<lambda>pl p g. (False, g))\<rparr>"

definition remarked :: "prompt \<times> game" where
  "remarked =
     run [CardClicked 1 2, MenuCommand 1 ''done'', CardClicked 1 4, CardClicked 1 2]
       (construct table_board 1 refusing_options)"

text \<open>
  The same chooser under a bound of one with \<open>multiSelect\<close>, and a caller that accepts
  the collection of card 4 twice and nothing else. After the refused offer of card 2 the
  chooser clicks card 4 twice; \<open>offered\<close> is the prompt at that moment, before the
  chooser offers again.
\<close>

definition array_options :: options where
  "array_options =
     no_options\<lparr>opt_numCards := Some 1, opt_multiSelect := True,
       opt_onSelect := Some (\<lambda>pl p g. (p = Cards [4, 4], g))\<rparr>"

definition offered :: "prompt \<times> game" where
  "offered =
     run [CardClicked 1 2, MenuCommand 1 ''done'', CardClicked 1 4, CardClicked 1 4]
       (construct table_board 1 array_options)"

text \<open>
  Clicks under a bound of two: cards 1 and 2 are picked, 1 is withdrawn, the opponent's
  click and the click on a card of a filtered type are refused, then card 4 is picked.
\<close>

text \<open>
  The same board with a card 6 that \<open>game.allCards\<close> does not list. Player 0 controls
  it and it carries \<open>opponentSelected\<close> from an earlier prompt. In \<open>strayed\<close> the chooser
  clicks it in a single-card prompt with the default callbacks, which completes the
  prompt.
\<close>

definition stray_board :: game where
  "stray_board =
     table_board\<lparr>cards := (cards table_board)(6 := blank_card\<lparr>opponentSelected := True\<rparr>)\<rparr>"

definition strayed :: "prompt \<times> game" where
  "strayed = run [CardClicked 0 6] (construct stray_board 0 no_options)"

text \<open>A caller whose \<open>onCardToggle\<close> hands the toggled card over to player 1.\<close>

definition shifting_options :: options where
  "shifting_options =
     no_options\<lparr>opt_numCards := Some 2,
       opt_onCardToggle := Some (\<lambda>pl c g. upd_card c (\<lambda>k. k\<lparr>controller := 1\<rparr>) g)\<rparr>"

definition click_script :: "(player_id \<times> card_id) list" where
  "click_script = [(0, 1), (0, 2), (0, 1), (7, 3), (0, 5), (0, 4)]"

definition scripted :: "prompt \<times> game" where
  "scripted = run (clicks click_script) (construct table_board 0 two_options)"

section \<open>The store and the evaluation of the examples\<close>

lemma cards_upd_card [simp]:
  "cards (upd_card c f g) x = (if x = c then f (cards g c) else cards g x)"
  by (simp add: upd_card_def)

lemma allCards_upd_card [simp]: "allCards (upd_card c f g) = allCards g"
  by (simp add: upd_card_def)

lemma purgedCards_upd_card [simp]: "purgedCards (upd_card c f g) = purgedCards g"
  by (simp add: upd_card_def)

lemma raised_upd_card [simp]: "raised (upd_card c f g) = raised g"
  by (simp add: upd_card_def)

lemmas board_defs = titan_board_def purger_def watcher_def table_board_def blank_card_def
  no_options_def two_options_def stat_options_def only_maxStat_def one_options_def

lemmas construct_defs = construct_def savePreviouslySelectedCards_def completeProperties_def
  defaultProperties_def or_default_def marked_def truthy_def

lemmas click_defs = run_def step_def onCardClicked_def checkCardCondition_def selectCard_def
  fireOnSelect_def cardParam_def complete_def clearSelection_def getType_def
  onMenuCommand_prompt_def continue_def isComplete_def highlightSelectableCards_def

section \<open>PurgeAction: the event and the mutation\<close>

lemma raised_purge: "raised (purge mv act c g) = raised (mv (owner (cards g c)) c ''purged'' g)"
  by (simp add: purge_def Let_def split: option.splits)

text \<open>
  C1. The event that \<open>getEvent\<close> builds is named \<open>onCardPurged\<close> and carries the card.
  Resolving it on a board \<open>g\<close> reads the location of the card on \<open>g\<close>. In the play area
  the event \<open>onCardLeavesPlay\<close> is raised for the card, the reactions that match it
  settle on the board on which \<open>purge\<close> has not run yet, and \<open>purge\<close> runs as the
  continuation of that event on the board the reactions leave. Anywhere else \<open>purge\<close>
  runs on \<open>g\<close> itself; \<open>purge\<close> raises no event of its own, its history of raised
  events is the one the move primitive returns.
\<close>

theorem getEvent_resolution:
  "ev_name (getEvent rs mv act c) = ''onCardPurged'' \<and>
   ev_card (getEvent rs mv act c) = c \<and>
   ev_handler (getEvent rs mv act c) g =
     (if location (cards g c) = ''play area''
      then purge mv act c
             (settle (matching rs ''onCardLeavesPlay'' c g) c
                (g\<lparr>raised := raised g @ [(''onCardLeavesPlay'', c)]\<rparr>))
      else purge mv act c g) \<and>
   raised (purge mv act c g) = raised (mv (owner (cards g c)) c ''purged'' g)"
  by (simp add: getEvent_def createEvent_def raiseEvent_def raised_purge)

text \<open>
  The trace of the spec's end-to-end test: card 1 is purged from the play area, the
  watcher sees it still in play, then both halves are purged; card 3 is purged from the
  hand with no event raised.
\<close>

theorem getEvent_resolution_witness:
  "raised (ev_handler (getEvent [watcher] moveCard purger 1) titan_board) =
     [(''onCardLeavesPlay'', 1)] \<and>
   selectable (cards (ev_handler (getEvent [watcher] moveCard purger 1) titan_board) 3) \<and>
   location (cards (ev_handler (getEvent [watcher] moveCard purger 1) titan_board) 1) =
     ''purged'' \<and>
   purgedCards (ev_handler (getEvent [watcher] moveCard purger 1) titan_board) 7 = [1, 2] \<and>
   raised (ev_handler (getEvent [watcher] moveCard purger 3) titan_board) = [] \<and>
   location (cards (ev_handler (getEvent [watcher] moveCard purger 3) titan_board) 3) =
     ''purged''"
  using getEvent_resolution [of "[watcher]" moveCard purger 1 titan_board]
    getEvent_resolution [of "[watcher]" moveCard purger 3 titan_board]
  by (simp add: board_defs purge_def moveCard_def settle_def matching_def Let_def)




section \<open>SelectCardPrompt: construction\<close>

lemma shift_small: "n < 2 ^ 53 \<Longrightarrow> shift_of n = 0"
  by (simp add: shift_of.simps)

lemma below_threshold:
  assumes "\<bar>n\<bar> < 2 ^ 53"
  shows "\<not> overflow_threshold \<le> \<bar>n\<bar>"
proof -
  have "(2::int) ^ 53 \<le> 2 ^ 1024"
    by (rule power_increasing) simp_all
  with assms have "\<bar>n\<bar> < overflow_threshold"
    unfolding overflow_threshold_def by (rule less_le_trans)
  then show ?thesis by (simp add: not_le)
qed

lemma js_add_int: "js_add (js_int a) (js_int b) = round_to_double (a + b) 0"
  by (simp add: js_int_def)

lemma js_le_int: "js_le (js_int a) (js_int b) = (a \<le> b)"
  by (simp add: js_int_def)

lemma round_exact:
  assumes "\<bar>n\<bar> < 2 ^ 53"
  shows "round_to_double n 0 = js_int n"
proof -
  have s: "shift_of \<bar>n\<bar> = 0"
    using assms by (rule shift_small)
  show ?thesis
    using below_threshold [OF assms]
    by (simp add: js_int_def round_to_double_def s Let_def mult_sgn_abs)
qed

lemma js_add_exact: "\<bar>a + b\<bar> < 2 ^ 53 \<Longrightarrow> js_add (js_int a) (js_int b) = js_int (a + b)"
  by (simp add: js_add_int round_exact)

lemma abs_sum_list: "\<bar>sum_list (map v xs)\<bar> \<le> sum_list (map (\<lambda>x. \<bar>v x\<bar>) xs)" for v :: "'a \<Rightarrow> int"
  by (induction xs) auto

lemma foldl_exact:
  "\<bar>a\<bar> + sum_list (map (\<lambda>x. \<bar>v x\<bar>) xs) < 2 ^ 53 \<Longrightarrow>
   foldl (\<lambda>sum x. js_add sum (js_int (v x))) (js_int a) xs = js_int (a + sum_list (map v xs))"
proof (induction xs arbitrary: a)
  case Nil
  then show ?case by simp
next
  case (Cons x xs)
  have nn: "0 \<le> sum_list (map (\<lambda>x. \<bar>v x\<bar>) xs)"
    by (intro sum_list_nonneg) auto
  have "\<bar>a + v x\<bar> < 2 ^ 53"
    using Cons.prems nn by simp
  then have "js_add (js_int a) (js_int (v x)) = js_int (a + v x)"
    by (rule js_add_exact)
  moreover have "foldl (\<lambda>sum x. js_add sum (js_int (v x))) (js_int (a + v x)) xs =
      js_int (a + v x + sum_list (map v xs))"
    using Cons.prems by (intro Cons.IH) simp
  ultimately show ?case by (simp add: add.assoc)
qed

lemma fst_savePreviouslySelectedCards:
  "fst (savePreviouslySelectedCards pr g) =
     pr\<lparr>previouslySelectedCards :=
          map (\<lambda>c. (c, selected (cards g c), opponentSelected (cards g c)))
            (filter (marked g) (allCards g))\<rparr>"
  by (simp add: savePreviouslySelectedCards_def Let_def)

lemma props_construct: "props (fst (construct g pl opts)) = completeProperties opts"
  by (simp add: construct_def fst_savePreviouslySelectedCards Let_def)

lemma condition_construct:
  "cardCondition_this (fst (construct g pl opts)) =
     (case (opt_maxStat opts, opt_cardStat opts) of
        (Some m, Some s) \<Rightarrow> createMaxStatCardCondition (completeProperties opts) m s
      | _ \<Rightarrow> (\<lambda>sel. or_default (opt_cardCondition opts) (\<lambda>g c. True)))"
  by (simp add: construct_def fst_savePreviouslySelectedCards Let_def completeProperties_def
      defaultProperties_def split: option.splits)

text \<open>
  C3, as amended. The constructor returns a prompt for every properties object; it has
  no failing branch. When exactly one of \<open>maxStat\<close> and \<open>cardStat\<close> is present, the
  prompt's card condition is the caller's eligibility predicate (or the default one) and
  no stat limit applies, whatever the selection is.
\<close>

theorem construct_half_stat:
  "SelectCardPrompt g pl opts = Inr (construct g pl opts) \<and>
   ((opt_maxStat opts = None) \<noteq> (opt_cardStat opts = None) \<longrightarrow>
      cardCondition_this (fst (construct g pl opts)) sel =
        or_default (opt_cardCondition opts) (\<lambda>g c. True))"
  by (auto simp: SelectCardPrompt_def condition_construct split: option.splits)

theorem construct_half_stat_witness:
  "SelectCardPrompt table_board 0 only_maxStat = Inr (construct table_board 0 only_maxStat) \<and>
   (opt_maxStat only_maxStat = None) \<noteq> (opt_cardStat only_maxStat = None) \<and>
   cardCondition_this (fst (construct table_board 0 only_maxStat)) [1, 2] = (\<lambda>g c. True)"
  using construct_half_stat [of table_board 0 only_maxStat "[1, 2]"]
  by (simp add: only_maxStat_def no_options_def or_default_def)

text \<open>
  The claim as stated fails: with a stat bound of 0 and no extractor the constructor
  returns a prompt, not an error, and the prompt accepts card 3 on top of cards 1 and 2.
\<close>

theorem construct_half_stat_counterexample:
  "opt_maxStat only_maxStat \<noteq> None \<and> opt_cardStat only_maxStat = None \<and>
   \<not> isl (SelectCardPrompt table_board 0 only_maxStat) \<and>
   cardCondition_this (fst (construct table_board 0 only_maxStat)) [1, 2] table_board 3"
  by (simp add: SelectCardPrompt_def condition_construct only_maxStat_def no_options_def
      or_default_def)

lemma stat_condition_numbers:
  assumes "opt_maxStat opts = Some m" and "opt_cardStat opts = Some s"
  shows "cardCondition_this (fst (construct g0 pl opts)) sel g c \<longleftrightarrow>
           or_default (opt_cardCondition opts) (\<lambda>g c. True) g c \<and>
           (js_le (js_add (s g c) (foldl (\<lambda>sum x. js_add sum (s g x)) (js_int 0) sel)) (m g) \<or>
            c \<in> set sel)"
  using assms
  by (simp add: condition_construct createMaxStatCardCondition_def completeProperties_def
      defaultProperties_def)

text \<open>
  C4, as amended. Take a prompt constructed with both \<open>maxStat\<close> and \<open>cardStat\<close>, the
  selection \<open>sel\<close> and the board \<open>g\<close> of the moment of the check, and stats that are
  integers whose absolute values, over the card and the selected cards, total less than
  \<open>2 ^ 53\<close>. The card condition accepts the card exactly when the caller's eligibility
  predicate accepts it and either its stat plus the sum of the stats of the selected
  cards, as an exact integer, is at most \<open>maxStat()\<close> on \<open>g\<close>, or the card is in the
  selection.
\<close>

theorem stat_condition:
  assumes "opt_maxStat opts = Some m"
    and "opt_cardStat opts = Some (\<lambda>g x. js_int (s g x))"
    and "\<bar>s g c\<bar> + sum_list (map (\<lambda>x. \<bar>s g x\<bar>) sel) < 2 ^ 53"
  shows "cardCondition_this (fst (construct g0 pl opts)) sel g c \<longleftrightarrow>
           or_default (opt_cardCondition opts) (\<lambda>g c. True) g c \<and>
           (js_le (js_int (s g c + sum_list (map (s g) sel))) (m g) \<or> c \<in> set sel)"
proof -
  have nn: "0 \<le> \<bar>s g c\<bar>" by simp
  have "\<bar>0::int\<bar> + sum_list (map (\<lambda>x. \<bar>s g x\<bar>) sel) < 2 ^ 53"
    using assms(3) nn by simp
  then have total: "foldl (\<lambda>sum x. js_add sum (js_int (s g x))) (js_int 0) sel =
      js_int (sum_list (map (s g) sel))"
    using foldl_exact [of 0 "s g" sel] by simp
  have "\<bar>s g c + sum_list (map (s g) sel)\<bar> < 2 ^ 53"
    using assms(3) abs_sum_list [of "s g" sel] by simp
  then have "js_add (js_int (s g c)) (js_int (sum_list (map (s g) sel))) =
      js_int (s g c + sum_list (map (s g) sel))"
    by (rule js_add_exact)
  with total show ?thesis
    using stat_condition_numbers [OF assms(1,2), of g0 pl sel g c] by simp
qed

text \<open>
  With a bound of 5 and the card number as stat: card 3 on top of card 2 reaches the
  bound and is accepted, card 4 on top of card 2 exceeds it and is refused, and card 4 as
  a member of a selection over the bound is accepted.
\<close>

theorem stat_condition_witness:
  "opt_maxStat stat_options = Some (\<lambda>g. js_int 5) \<and>
   opt_cardStat stat_options = Some (\<lambda>g c. js_int (int c)) \<and>
   cardCondition_this (fst (construct table_board 0 stat_options)) [2] table_board 3 \<and>
   \<not> cardCondition_this (fst (construct table_board 0 stat_options)) [2] table_board 4 \<and>
   cardCondition_this (fst (construct table_board 0 stat_options)) [2, 4] table_board 4"
  using stat_condition [of stat_options "\<lambda>g. js_int 5" "\<lambda>g c. int c" table_board 3 "[2]" table_board 0]
    stat_condition [of stat_options "\<lambda>g. js_int 5" "\<lambda>g c. int c" table_board 4 "[2]" table_board 0]
    stat_condition [of stat_options "\<lambda>g. js_int 5" "\<lambda>g c. int c" table_board 4 "[2, 4]" table_board 0]
  by (simp add: stat_options_def no_options_def or_default_def js_le_int)

lemma large_sum: "js_add (js_int (2 ^ 53)) (js_int 1) = Finite (2 ^ 52) 1"
  by (simp add: js_add_int round_to_double_def shift_of.simps Let_def overflow_threshold_def)

text \<open>
  The claim as stated fails where the sum is not a double. The bound is \<open>2 ^ 53\<close>, card 3
  has the stat \<open>2 ^ 53\<close> and the selected card 2 the stat 1: the total \<open>2 ^ 53 + 1\<close>
  exceeds the bound, and card 3 is not in the selection, yet \<open>2 ^ 53 + 1\<close> rounds to
  \<open>2 ^ 53\<close> and the card condition accepts card 3.
\<close>

theorem stat_condition_counterexample:
  "opt_maxStat large_stat_options = Some (\<lambda>g. js_int (2 ^ 53)) \<and>
   opt_cardStat large_stat_options =
     Some (\<lambda>g c. if c = 3 then js_int (2 ^ 53) else js_int 1) \<and>
   \<not> ((2::int) ^ 53 + 1 \<le> 2 ^ 53) \<and> 3 \<notin> set [2::card_id] \<and>
   cardCondition_this (fst (construct table_board 0 large_stat_options)) [2] table_board 3"
proof -
  have sum: "foldl (\<lambda>sum x. js_add sum (if x = 3 then js_int (2 ^ 53) else js_int 1))
      (js_int 0) [2::card_id] = js_int 1"
    using js_add_exact [of 0 1] by simp
  have "js_le (Finite (2 ^ 52) 1) (js_int (2 ^ 53))"
    by (simp add: js_int_def)
  then have "js_le (js_add (js_int (2 ^ 53)) (foldl (\<lambda>sum x. js_add sum
      (if x = 3 then js_int (2 ^ 53) else js_int 1)) (js_int 0) [2::card_id])) (js_int (2 ^ 53))"
    by (simp only: sum large_sum)
  then show ?thesis
    using stat_condition_numbers [of large_stat_options "\<lambda>g. js_int (2 ^ 53)"
        "\<lambda>g c. if c = 3 then js_int (2 ^ 53) else js_int 1" table_board 0 "[2]" table_board 3]
    by (simp add: large_stat_options_def no_options_def or_default_def)
qed

section \<open>SelectCardPrompt: clicks, admission and delivery\<close>

text \<open>
  The admission guard of \<open>selectCard\<close>. With a bound \<open>N > 0\<close> and \<open>N\<close> (or more)
  cards selected, \<open>selectCard\<close> on a card outside the selection returns false and
  leaves the prompt and the board as they are; on a member it returns true. With the
  bound 0 it returns true for every card. A member is removed when it carries its own marker
  and not the other one.
\<close>

lemma selectCard_admission:
  "(0 < numCards (props pr) \<and> numCards (props pr) \<le> int (length (selectedCards pr)) \<longrightarrow>
      (c \<notin> set (selectedCards pr) \<longrightarrow> selectCard pr c g = (False, pr, g)) \<and>
      (c \<in> set (selectedCards pr) \<longrightarrow> fst (selectCard pr c g)) \<and>
      (c \<in> set (selectedCards pr) \<and> own_marker pr g c \<longrightarrow>
         selectedCards (fst (snd (selectCard pr c g))) =
           filter (\<lambda>x. x \<noteq> c) (selectedCards pr))) \<and>
   (numCards (props pr) = 0 \<longrightarrow> fst (selectCard pr c g))"
  by (auto simp: selectCard_def Let_def own_marker_def marked_def)

lemma remarked_facts:
  "case remarked of
     (pr, g) \<Rightarrow> numCards (props pr) = 2 \<and> selectedCards pr = [4, 2] \<and> \<not> completed pr \<and>
       choosingPlayer pr = controller (cards g 4) \<and>
       selected (cards g 4) \<and> opponentSelected (cards g 4) \<and>
       fst (selectCard pr 4 g) \<and> selectedCards (fst (snd (selectCard pr 4 g))) = [4, 2, 4] \<and>
       \<not> selected (cards (snd (snd (selectCard pr 4 g))) 4) \<and>
       opponentSelected (cards (snd (snd (selectCard pr 4 g))) 4)"
  by (simp add: remarked_def refusing_options_def board_defs construct_defs click_defs Let_def)

text \<open>
  C5. The code departs from the claim in a state the prompt reaches. Under the bound 2
  the selection is \<open>[4, 2]\<close>, so it is full and card 4 is a member. The refused offer
  has written the \<open>opponentSelected\<close> of an earlier prompt back on card 4, which the
  chooser controls, so the card carries both markers. \<open>selectCard\<close> on card 4 returns
  true, clears \<open>selected\<close>, finds the card still marked through \<open>opponentSelected\<close>
  and appends it once more: the member is not removed.
\<close>

theorem selectCard_member_kept:
  "numCards (props (fst remarked)) = 2 \<and> selectedCards (fst remarked) = [4, 2] \<and>
   \<not> completed (fst remarked) \<and>
   selected (cards (snd remarked) 4) \<and> opponentSelected (cards (snd remarked) 4) \<and>
   fst (selectCard (fst remarked) 4 (snd remarked)) \<and>
   selectedCards (fst (snd (selectCard (fst remarked) 4 (snd remarked)))) = [4, 2, 4] \<and>
   opponentSelected (cards (snd (snd (selectCard (fst remarked) 4 (snd remarked)))) 4)"
  using remarked_facts by (simp add: split_beta)

lemma delivered_clearSelection [simp]: "delivered (fst (clearSelection pr g)) = delivered pr"
  by (simp add: clearSelection_def Let_def)

lemma delivered_complete [simp]: "delivered (fst (complete pr g)) = delivered pr"
  by (simp add: complete_def clearSelection_def Let_def)

lemma delivered_fireOnSelect:
  "delivered (fst (fireOnSelect pr g)) = delivered pr @ [cardParam pr]"
  by (simp add: fireOnSelect_def Let_def split: prod.splits)

lemma props_selectCard [simp]: "props (fst (snd (selectCard pr c g))) = props pr"
  by (simp add: selectCard_def Let_def)

lemma offered_facts:
  "case offered of
     (pr, g) \<Rightarrow> numCards (props pr) = 1 \<and> multiSelect (props pr) \<and> \<not> completed pr \<and>
       selectedCards pr = [4, 4] \<and> cardParam pr = Cards [4, 4] \<and>
       onSelect (props pr) (choosingPlayer pr) (Cards [4]) g = (False, g) \<and>
       onSelect (props pr) (choosingPlayer pr) (Cards [4, 4]) g = (True, g) \<and>
       completed (fst (fireOnSelect pr g))"
  by (simp add: offered_def array_options_def board_defs construct_defs click_defs Let_def)

text \<open>
  C7. The code departs from the claim in a run of the prompt. Under \<open>numCards = 1\<close>
  with \<open>multiSelect\<close> set, the refused offer of card 2 has written the
  \<open>opponentSelected\<close> of an earlier prompt back on card 4, and the second click on card 4
  appends it once more. \<open>fireOnSelect\<close> then hands \<open>onSelect\<close> the collection
  \<open>[4, 4]\<close>, of two elements: the caller refuses the collection \<open>[4]\<close> and accepts
  this one, and the prompt completes.
\<close>

theorem fireOnSelect_two_cards:
  "numCards (props (fst offered)) = 1 \<and> multiSelect (props (fst offered)) \<and>
   \<not> completed (fst offered) \<and> selectedCards (fst offered) = [4, 4] \<and>
   cardParam (fst offered) = Cards [4, 4] \<and>
   onSelect (props (fst offered)) (choosingPlayer (fst offered)) (Cards [4]) (snd offered) =
     (False, snd offered) \<and>
   onSelect (props (fst offered)) (choosingPlayer (fst offered)) (Cards [4, 4]) (snd offered) =
     (True, snd offered) \<and>
   completed (fst (fireOnSelect (fst offered) (snd offered)))"
  using offered_facts by (simp add: split_beta)

text \<open>
  C8. A click by a player who is not the chooser, on a card whose type is outside the
  type filter, or on a card the card condition refuses, returns false and leaves the
  prompt (its selection and its completion flag) and the board as they are.
\<close>

theorem illegal_click_rejected:
  assumes "player \<noteq> choosingPlayer pr \<or>
           getType (cards g c) \<notin> set (cardType (props pr)) \<or>
           \<not> cardCondition_this pr (selectedCards pr) g c"
  shows "onCardClicked pr player c g = (Some False, pr, g)"
  using assms by (auto simp: onCardClicked_def checkCardCondition_def)

text \<open>The opponent clicks card 2; the chooser clicks card 5, of a filtered type.\<close>

theorem illegal_click_rejected_witness:
  "\<not> completed (fst two_picked) \<and>
   onCardClicked (fst two_picked) 7 2 (snd two_picked) =
     (Some False, fst two_picked, snd two_picked) \<and>
   choosingPlayer (fst two_picked) = 0 \<and>
   getType (cards (snd two_picked) 5) \<notin> set (cardType (props (fst two_picked))) \<and>
   onCardClicked (fst two_picked) 0 5 (snd two_picked) =
     (Some False, fst two_picked, snd two_picked)"
proof -
  have facts: "\<not> completed (fst two_picked) \<and> choosingPlayer (fst two_picked) = 0 \<and>
      getType (cards (snd two_picked) 5) \<notin> set (cardType (props (fst two_picked)))"
    by (simp add: two_picked_def board_defs construct_defs click_defs Let_def)
  show ?thesis
    using illegal_click_rejected [of 7 "fst two_picked" "snd two_picked" 2]
      illegal_click_rejected [of 0 "fst two_picked" "snd two_picked" 5] facts
    by simp
qed

section \<open>SelectCardPrompt: the default title\<close>

text \<open>
  C9. A prompt constructed with no \<open>activePromptTitle\<close> (or an empty one) shows the
  menu title "Select undefined cards", whatever \<open>numCards\<close> is: the default title reads
  the key \<open>numCard\<close>, which the properties object does not have.
\<close>

theorem default_title_undefined:
  assumes "\<not> truthy (opt_activePromptTitle opts)"
  shows "menuTitle (activePrompt (fst (construct g pl opts))) = ''Select undefined cards''"
  using assms
  by (auto simp: activePrompt_def props_construct completeProperties_def or_else_def truthy_def
      defaultActivePromptTitle_def numeric_property_def to_string_def split: option.splits)

theorem default_title_undefined_witness:
  "\<not> truthy (opt_activePromptTitle one_options) \<and>
   numCards (props (fst (construct table_board 0 one_options))) = 1 \<and>
   menuTitle (activePrompt (fst (construct table_board 0 one_options))) =
     ''Select undefined cards''"
  using default_title_undefined [of one_options table_board 0]
  by (simp add: one_options_def no_options_def truthy_def props_construct
      completeProperties_def or_default_def)

section \<open>SelectCardPrompt: the markers of earlier prompts\<close>

lemma allCards_fold_upd [simp]:
  "allCards (fold (\<lambda>x. upd_card (k x) (f x)) xs g) = allCards g"
  by (induction xs arbitrary: g) auto

lemma cards_fold_upd_other:
  "x \<notin> k ` set xs \<Longrightarrow> cards (fold (\<lambda>y. upd_card (k y) (f y)) xs g) x = cards g x"
  by (induction xs arbitrary: g) auto

lemma cards_fold_clear:
  "cards (fold (\<lambda>c. upd_card c (\<lambda>k. k\<lparr>selected := False, opponentSelected := False\<rparr>)) xs g) x =
     (if x \<in> set xs then (cards g x)\<lparr>selected := False, opponentSelected := False\<rparr>
      else cards g x)"
  by (induction xs arbitrary: g) auto

lemma cards_fold_dim:
  "cards (fold (\<lambda>c. upd_card c (\<lambda>k. k\<lparr>selectable := False\<rparr>)) xs g) x =
     (if x \<in> set xs then (cards g x)\<lparr>selectable := False\<rparr> else cards g x)"
  by (induction xs arbitrary: g) auto

lemma cards_fold_restore:
  "cards (fold (\<lambda>sel. upd_card (fst sel)
                  (\<lambda>k. k\<lparr>selected := fst (snd sel), opponentSelected := snd (snd sel)\<rparr>))
            (map (\<lambda>c. (c, a c, b c)) ys) g) x =
     (if x \<in> set ys then (cards g x)\<lparr>selected := a x, opponentSelected := b x\<rparr>
      else cards g x)"
  by (induction ys arbitrary: g) auto

lemma construct_snapshot:
  "previouslySelectedCards (fst (construct g pl opts)) = snapshot g"
  by (simp add: construct_def fst_savePreviouslySelectedCards snapshot_def Let_def)

lemma snd_savePreviouslySelectedCards:
  "cards (snd (savePreviouslySelectedCards pr g)) x =
     (if x \<in> set (allCards g) \<and> marked g x
      then (cards g x)\<lparr>selected := False, opponentSelected := False\<rparr> else cards g x)"
proof -
  have "fold (\<lambda>sel. upd_card (fst sel) (\<lambda>k. k\<lparr>selected := False, opponentSelected := False\<rparr>))
          (map h ys) g
        = fold (\<lambda>c. upd_card c (\<lambda>k. k\<lparr>selected := False, opponentSelected := False\<rparr>))
          (map (\<lambda>y. fst (h y)) ys) g" for h :: "nat \<Rightarrow> nat \<times> bool \<times> bool" and ys g
    by (induction ys arbitrary: g) auto
  then show ?thesis
    by (simp add: savePreviouslySelectedCards_def Let_def cards_fold_clear comp_def)
qed

lemma allCards_savePreviouslySelectedCards [simp]:
  "allCards (snd (savePreviouslySelectedCards pr g)) = allCards g"
  by (simp add: savePreviouslySelectedCards_def Let_def)

lemma construct_unmarked:
  "c \<in> set (allCards g) \<Longrightarrow> \<not> marked (snd (construct g pl opts)) c"
  by (simp add: construct_def Let_def marked_def snd_savePreviouslySelectedCards)

lemma following_construct:
  "following g (completeProperties opts) (fst (construct g pl opts)) (snd (construct g pl opts))"
  unfolding following_def
  by (simp add: props_construct construct_snapshot construct_unmarked)
     (simp add: construct_def Let_def)

lemma clearSelection_fields [simp]:
  "props (fst (clearSelection pr g)) = props pr"
  "previouslySelectedCards (fst (clearSelection pr g)) = previouslySelectedCards pr"
  "completed (fst (clearSelection pr g)) = completed pr"
  "choosingPlayer (fst (clearSelection pr g)) = choosingPlayer pr"
  "selectedCards (fst (clearSelection pr g)) = []"
  "allCards (snd (clearSelection pr g)) = allCards g"
  by (simp_all add: clearSelection_def Let_def)

lemma cards_clearSelection:
  assumes "previouslySelectedCards pr = snapshot g0"
  shows "cards (snd (clearSelection pr g)) x =
     (let k1 = (if x \<in> set (selectedCards pr)
                then (cards g x)\<lparr>selected := False, opponentSelected := False\<rparr> else cards g x);
          k2 = (if x \<in> set (allCards g) then k1\<lparr>selectable := False\<rparr> else k1)
      in if x \<in> set (allCards g0) \<and> marked g0 x
         then k2\<lparr>selected := selected (cards g0 x), opponentSelected := opponentSelected (cards g0 x)\<rparr>
         else k2)"
  using assms
  by (simp add: clearSelection_def Let_def snapshot_def cards_fold_restore cards_fold_dim
      cards_fold_clear)

lemma clearSelection_restores:
  assumes "following g0 ps pr g"
  shows "restored g0 (snd (clearSelection pr g)) \<and>
         following g0 ps (fst (clearSelection pr g)) (snd (clearSelection pr g))"
proof -
  from assms have prev: "previouslySelectedCards pr = snapshot g0"
    and all: "allCards g = allCards g0" and ps: "props pr = ps"
    and cov: "\<And>c. c \<in> set (allCards g0) \<Longrightarrow> marked g c \<Longrightarrow>
                 c \<in> set (selectedCards pr) \<or> marked g0 c"
    by (auto simp: following_def)
  have r: "restored g0 (snd (clearSelection pr g))"
    unfolding restored_def
  proof
    fix c assume c: "c \<in> set (allCards g0)"
    show "selected (cards (snd (clearSelection pr g)) c) = selected (cards g0 c) \<and>
          opponentSelected (cards (snd (clearSelection pr g)) c) = opponentSelected (cards g0 c) \<and>
          \<not> selectable (cards (snd (clearSelection pr g)) c)"
      using c cov [of c] by (auto simp: cards_clearSelection [OF prev] all Let_def marked_def)
  qed
  have "\<And>c. c \<in> set (allCards g0) \<Longrightarrow> marked (snd (clearSelection pr g)) c \<Longrightarrow> marked g0 c"
    using r by (auto simp: restored_def marked_def)
  then show ?thesis
    using r prev all ps by (auto simp: following_def)
qed

lemma complete_fields [simp]:
  "props (fst (complete pr g)) = props pr"
  "previouslySelectedCards (fst (complete pr g)) = previouslySelectedCards pr"
  "completed (fst (complete pr g))"
  "selectedCards (fst (complete pr g)) = []"
  "snd (complete pr g) = snd (clearSelection pr g)"
  by (simp_all add: complete_def split: prod.splits) (simp_all add: clearSelection_def Let_def)

lemma following_completed:
  "following g0 ps (pr\<lparr>completed := b\<rparr>) g = following g0 ps pr g"
  by (simp add: following_def)

lemma following_delivered:
  "following g0 ps (pr\<lparr>delivered := d\<rparr>) g = following g0 ps pr g"
  by (simp add: following_def)

lemma complete_tracked:
  assumes "following g0 ps pr g"
  shows "tracked g0 ps (complete pr g)"
proof -
  have "fst (complete pr g) = (fst (clearSelection pr g))\<lparr>completed := True\<rparr>"
    by (simp add: complete_def split: prod.splits)
  then show ?thesis
    using clearSelection_restores [OF assms]
    by (simp add: tracked_def following_completed)
qed

lemma clearSelection_tracked:
  assumes "following g0 ps pr g"
  shows "tracked g0 ps (clearSelection pr g)"
  using clearSelection_restores [OF assms] by (simp add: tracked_def)

lemma following_quiet:
  assumes "quiet f" and "following g0 ps pr g"
  shows "following g0 ps pr (f g)"
  using assms by (simp add: following_def quiet_def marked_def)

lemma fireOnSelect_unfold:
  "fireOnSelect pr g =
     (let r = onSelect (props pr) (choosingPlayer pr) (cardParam pr) g;
          pr0 = pr\<lparr>delivered := delivered pr @ [cardParam pr]\<rparr>
      in if fst r then complete pr0 (snd r) else clearSelection pr0 (snd r))"
  by (simp add: fireOnSelect_def Let_def split: prod.splits)

lemma fireOnSelect_tracked:
  assumes "callbacks_quiet ps" and "following g0 ps pr g"
  shows "tracked g0 ps (fireOnSelect pr g)"
proof -
  from assms have ps: "props pr = ps" by (simp add: following_def)
  have q: "quiet (\<lambda>g. snd (onSelect ps (choosingPlayer pr) (cardParam pr) g))"
    using assms(1) by (simp add: callbacks_quiet_def)
  have f: "following g0 ps (pr\<lparr>delivered := delivered pr @ [cardParam pr]\<rparr>)
             (snd (onSelect ps (choosingPlayer pr) (cardParam pr) g))"
    using following_quiet [OF q assms(2)] by (simp add: following_delivered)
  show ?thesis
    using complete_tracked [OF f] clearSelection_tracked [OF f]
    by (simp add: fireOnSelect_unfold Let_def ps)
qed

lemma selectCard_following:
  assumes "callbacks_quiet ps" and "following g0 ps pr g"
  shows "following g0 ps (fst (snd (selectCard pr c g))) (snd (snd (selectCard pr c g)))"
proof (cases "fst (selectCard pr c g)")
  case False
  then have "selectCard pr c g = (False, pr, g)"
    by (auto simp: selectCard_def Let_def split: if_splits)
  with assms show ?thesis by simp
next
  case True
  define g1 where "g1 =
    (if choosingPlayer pr \<noteq> controller (cards g c)
     then upd_card c (\<lambda>k. k\<lparr>opponentSelected := \<not> opponentSelected k\<rparr>) g
     else upd_card c (\<lambda>k. k\<lparr>selected := \<not> selected k\<rparr>) g)"
  define pr1 where "pr1 =
    (if selected (cards g1 c) \<or> opponentSelected (cards g1 c)
     then pr\<lparr>selectedCards := selectedCards pr @ [c]\<rparr>
     else pr\<lparr>selectedCards := filter (\<lambda>x. x \<noteq> c) (selectedCards pr)\<rparr>)"
  define g2 where "g2 =
    (case onCardToggle (props pr) of None \<Rightarrow> g1 | Some f \<Rightarrow> f (choosingPlayer pr) c g1)"
  have guard: "\<not> (numCards (props pr) \<noteq> 0 \<and>
      int (length (selectedCards pr)) \<ge> numCards (props pr) \<and> c \<notin> set (selectedCards pr))"
  proof
    assume "numCards (props pr) \<noteq> 0 \<and>
      int (length (selectedCards pr)) \<ge> numCards (props pr) \<and> c \<notin> set (selectedCards pr)"
    then have "selectCard pr c g = (False, pr, g)" by (simp add: selectCard_def)
    with True show False by simp
  qed
  have res: "selectCard pr c g = (True, pr1, g2)"
    unfolding selectCard_def Let_def g2_def pr1_def g1_def using guard by simp
  from assms have ps: "props pr = ps" by (simp add: following_def)
  have other: "\<And>x. x \<noteq> c \<Longrightarrow> marked g1 x = marked g x"
    by (simp add: g1_def marked_def)
  have f1: "following g0 ps pr1 g1"
    using assms(2) other
    by (auto simp: following_def pr1_def g1_def marked_def)
  have "following g0 ps pr1 g2"
  proof (cases "onCardToggle (props pr)")
    case None
    then show ?thesis using f1 by (simp add: g2_def)
  next
    case (Some f)
    then have "quiet (f (choosingPlayer pr) c)"
      using assms(1) by (simp add: callbacks_quiet_def ps)
    from following_quiet [OF this f1] Some show ?thesis by (simp add: g2_def)
  qed
  with res show ?thesis by simp
qed

lemma highlight_quiet: "quiet (highlightSelectableCards pr)"
proof -
  have "allCards (fold (\<lambda>c s. if P s c then upd_card c (\<lambda>k. k\<lparr>selectable := Q s c\<rparr>) s else s) xs g)
          = allCards g \<and>
        (\<forall>x. selected (cards (fold (\<lambda>c s. if P s c then upd_card c (\<lambda>k. k\<lparr>selectable := Q s c\<rparr>) s else s) xs g) x)
               = selected (cards g x) \<and>
             opponentSelected (cards (fold (\<lambda>c s. if P s c then upd_card c (\<lambda>k. k\<lparr>selectable := Q s c\<rparr>) s else s) xs g) x)
               = opponentSelected (cards g x))"
    for P Q xs g
    by (induction xs arbitrary: g) auto
  then show ?thesis
    by (simp add: quiet_def highlightSelectableCards_def)
qed

lemma tracked_step:
  assumes q: "callbacks_quiet ps" and t: "tracked g0 ps st"
  shows "tracked g0 ps (step i st)"
proof (cases "completed (fst st)")
  case True
  with t show ?thesis by (cases st) (simp add: step_def)
next
  case False
  obtain pr g where st: "st = (pr, g)" by (cases st)
  from t st have f: "following g0 ps pr g" by (simp add: tracked_def)
  from f have ps: "props pr = ps" by (simp add: following_def)
  from False st have nc: "\<not> completed pr" by simp
  have keep: "tracked g0 ps (pr, g)" using t st by simp
  show ?thesis
  proof (cases i)
    case (CardClicked pl c)
    obtain ok pr1 g1 where sc: "selectCard pr c g = (ok, pr1, g1)" by (cases "selectCard pr c g")
    have f1: "following g0 ps pr1 g1"
      using selectCard_following [OF q f, of c] sc by simp
    have c1: "completed pr1 = completed pr"
      using sc by (auto simp: selectCard_def Let_def split: if_splits)
    have t1: "tracked g0 ps (pr1, g1)"
      using f1 c1 nc by (simp add: tracked_def)
    have "snd (onCardClicked pr pl c g) = (pr, g) \<or>
          snd (onCardClicked pr pl c g) = (pr1, g1) \<or>
          snd (onCardClicked pr pl c g) = fireOnSelect pr1 g1"
      by (simp add: onCardClicked_def sc split: prod.splits)
    then show ?thesis
      using keep t1 fireOnSelect_tracked [OF q f1]
      by (auto simp: step_def st nc CardClicked)
  next
    case (MenuCommand pl a)
    have q1: "quiet (\<lambda>g. snd (onMenuCommand ps pl a g))" and q2: "quiet (onCancel ps pl)"
      using q by (simp_all add: callbacks_quiet_def)
    have m: "following g0 ps pr (snd (onMenuCommand ps pl a g))"
      using following_quiet [OF q1 f] .
    have n: "following g0 ps pr (onCancel ps pl g)"
      using following_quiet [OF q2 f] .
    have "snd (onMenuCommand_prompt pr pl a g) = (pr, g) \<or>
          snd (onMenuCommand_prompt pr pl a g) = (pr, snd (onMenuCommand ps pl a g)) \<or>
          snd (onMenuCommand_prompt pr pl a g) = complete pr (snd (onMenuCommand ps pl a g)) \<or>
          snd (onMenuCommand_prompt pr pl a g) = fireOnSelect pr g \<or>
          snd (onMenuCommand_prompt pr pl a g) = complete pr (onCancel ps pl g)"
      by (simp add: onMenuCommand_prompt_def ps split: prod.splits)
    moreover have "tracked g0 ps (pr, snd (onMenuCommand ps pl a g))"
      using m nc by (simp add: tracked_def)
    ultimately show ?thesis
      using keep complete_tracked [OF m] complete_tracked [OF n] fireOnSelect_tracked [OF q f]
      by (auto simp: step_def st nc MenuCommand)
  next
    case Continue
    have "following g0 ps pr (highlightSelectableCards pr g)"
      using following_quiet [OF highlight_quiet f] .
    then show ?thesis
      using nc by (simp add: step_def st Continue continue_def isComplete_def tracked_def Let_def)
  qed
qed

lemma tracked_run:
  assumes "callbacks_quiet ps" and "tracked g0 ps st"
  shows "tracked g0 ps (run ins st)"
  using assms(2) unfolding run_def
  by (induction ins arbitrary: st) (simp_all add: tracked_step [OF assms(1)])

lemma clearSelection_exit:
  assumes "previouslySelectedCards pr = snapshot g0"
  shows "premarked_restored g0 (snd (clearSelection pr g)) \<and> dimmed (snd (clearSelection pr g))"
  by (simp add: premarked_restored_def dimmed_def cards_clearSelection [OF assms] Let_def)

lemma complete_leaving:
  assumes "previouslySelectedCards pr = snapshot g0"
  shows "leaving g0 (complete pr g)"
  using clearSelection_exit [OF assms, of g] assms by (simp add: leaving_def)

lemma clearSelection_leaving:
  assumes "previouslySelectedCards pr = snapshot g0" and "\<not> completed pr"
  shows "leaving g0 (clearSelection pr g)"
  using assms by (simp add: leaving_def)

lemma fireOnSelect_leaving:
  assumes "previouslySelectedCards pr = snapshot g0" and "\<not> completed pr"
  shows "leaving g0 (fireOnSelect pr g)"
proof -
  let ?pr0 = "pr\<lparr>delivered := delivered pr @ [cardParam pr]\<rparr>"
  have p: "previouslySelectedCards ?pr0 = snapshot g0" and c: "\<not> completed ?pr0"
    using assms by simp_all
  show ?thesis
    using complete_leaving [OF p] clearSelection_leaving [OF p c]
    by (simp add: fireOnSelect_unfold Let_def)
qed

lemma selectCard_keeps:
  "previouslySelectedCards (fst (snd (selectCard pr c g))) = previouslySelectedCards pr \<and>
   completed (fst (snd (selectCard pr c g))) = completed pr"
  by (simp add: selectCard_def Let_def)

lemma leaving_step:
  assumes l: "leaving g0 st"
  shows "leaving g0 (step i st)"
proof (cases "completed (fst st)")
  case True
  with l show ?thesis by (cases st) (simp add: step_def)
next
  case False
  obtain pr g where st: "st = (pr, g)" by (cases st)
  from l st have prev: "previouslySelectedCards pr = snapshot g0" by (simp add: leaving_def)
  from False st have nc: "\<not> completed pr" by simp
  have idle: "leaving g0 (pr, g')" for g'
    using prev nc by (simp add: leaving_def)
  show ?thesis
  proof (cases i)
    case (CardClicked pl c)
    obtain ok pr1 g1 where sc: "selectCard pr c g = (ok, pr1, g1)" by (cases "selectCard pr c g")
    have p1: "previouslySelectedCards pr1 = snapshot g0" and c1: "\<not> completed pr1"
      using selectCard_keeps [of pr c g] sc prev nc by simp_all
    have l1: "leaving g0 (pr1, g1)"
      using p1 c1 by (simp add: leaving_def)
    have "snd (onCardClicked pr pl c g) = (pr, g) \<or>
          snd (onCardClicked pr pl c g) = (pr1, g1) \<or>
          snd (onCardClicked pr pl c g) = fireOnSelect pr1 g1"
      by (simp add: onCardClicked_def sc split: prod.splits)
    then show ?thesis
      using idle [of g] l1 fireOnSelect_leaving [OF p1 c1, of g1]
      by (auto simp: step_def st nc CardClicked)
  next
    case (MenuCommand pl a)
    have "snd (onMenuCommand_prompt pr pl a g) = (pr, g) \<or>
          snd (onMenuCommand_prompt pr pl a g) = (pr, snd (onMenuCommand (props pr) pl a g)) \<or>
          snd (onMenuCommand_prompt pr pl a g) =
            complete pr (snd (onMenuCommand (props pr) pl a g)) \<or>
          snd (onMenuCommand_prompt pr pl a g) = fireOnSelect pr g \<or>
          snd (onMenuCommand_prompt pr pl a g) = complete pr (onCancel (props pr) pl g)"
      by (simp add: onMenuCommand_prompt_def split: prod.splits)
    then show ?thesis
      using idle [of g] idle [of "snd (onMenuCommand (props pr) pl a g)"]
        complete_leaving [OF prev, of "snd (onMenuCommand (props pr) pl a g)"]
        complete_leaving [OF prev, of "onCancel (props pr) pl g"]
        fireOnSelect_leaving [OF prev nc, of g]
      by (auto simp: step_def st nc MenuCommand)
  next
    case Continue
    then show ?thesis
      using idle [of "snd (continue pr g)"] by (simp add: step_def st nc)
  qed
qed

lemma leaving_run: "leaving g0 st \<Longrightarrow> leaving g0 (run ins st)"
  unfolding run_def by (induction ins arbitrary: st) (simp_all add: leaving_step)

lemma construct_leaving: "leaving g0 (construct g0 pl opts)"
proof -
  have "\<not> completed (fst (construct g0 pl opts))"
    by (simp add: construct_def fst_savePreviouslySelectedCards Let_def)
  then show ?thesis by (simp add: leaving_def construct_snapshot)
qed

text \<open>
  C6, as amended. The cards of the game are those of \<open>game.allCards\<close>. The constructor
  leaves none of them marked, so the markers that they carried before are cleared.
  Whatever card clicks, menu commands and steps follow and whatever the caller's
  callbacks do, a prompt that has completed (by an accepted selection, by a cancellation
  or by a menu command) leaves every card of the game that was marked before the
  constructor ran with exactly the \<open>selected\<close> and \<open>opponentSelected\<close> values it had
  then, no card of the game highlighted as selectable, and an empty working selection.
  When the caller's callbacks leave \<open>game.allCards\<close> and the markers alone, the cards of
  the game that were not marked before are not marked at the exit either, so no marker
  of the working selection is left behind.
\<close>

theorem markers_restored:
  "(\<forall>c\<in>set (allCards g0). \<not> marked (snd (construct g0 pl opts)) c) \<and>
   (completed (fst (run ins (construct g0 pl opts))) \<longrightarrow>
      premarked_restored g0 (snd (run ins (construct g0 pl opts))) \<and>
      dimmed (snd (run ins (construct g0 pl opts))) \<and>
      selectedCards (fst (run ins (construct g0 pl opts))) = [] \<and>
      (callbacks_quiet (completeProperties opts) \<longrightarrow>
         restored g0 (snd (run ins (construct g0 pl opts)))))"
proof -
  have nc: "\<not> completed (fst (construct g0 pl opts))"
    by (simp add: construct_def fst_savePreviouslySelectedCards Let_def)
  have t: "tracked g0 (completeProperties opts) (construct g0 pl opts)"
    using nc following_construct [of g0 opts pl] by (simp add: tracked_def)
  have q: "callbacks_quiet (completeProperties opts) \<Longrightarrow>
      completed (fst (run ins (construct g0 pl opts))) \<Longrightarrow>
      restored g0 (snd (run ins (construct g0 pl opts)))"
    using tracked_run [OF _ t, of ins] by (simp add: tracked_def)
  from leaving_run [OF construct_leaving, of g0 ins pl opts] q show ?thesis
    by (auto simp: leaving_def construct_unmarked)
qed

lemma picky_quiet: "callbacks_quiet (completeProperties picky_options)"
  by (simp add: callbacks_quiet_def quiet_def picky_options_def no_options_def
      completeProperties_def defaultProperties_def or_default_def)

lemma accepted_run_facts:
  "case run accepted_inputs (construct table_board 0 picky_options) of
     (pr, g) \<Rightarrow> completed pr \<and> delivered pr = [Cards [1], Cards [1, 2]]"
  by (simp add: accepted_inputs_def picky_options_def board_defs construct_defs click_defs
      Let_def)

lemma cancelled_run_facts:
  "case run cancelled_inputs (construct table_board 0 picky_options) of
     (pr, g) \<Rightarrow> completed pr \<and> delivered pr = []"
  by (simp add: cancelled_inputs_def picky_options_def board_defs construct_defs click_defs
      Let_def)

text \<open>
  Cards 3 and 4 carry markers of an earlier prompt. The run that ends in an accepted
  selection and the run that ends in a cancellation both give them back.
\<close>

theorem markers_restored_witness:
  "callbacks_quiet (completeProperties picky_options) \<and>
   marked table_board 3 \<and> marked table_board 4 \<and>
   \<not> marked (snd (construct table_board 0 picky_options)) 3 \<and>
   \<not> marked (snd (construct table_board 0 picky_options)) 4 \<and>
   completed (fst (run accepted_inputs (construct table_board 0 picky_options))) \<and>
   premarked_restored table_board
     (snd (run accepted_inputs (construct table_board 0 picky_options))) \<and>
   dimmed (snd (run accepted_inputs (construct table_board 0 picky_options))) \<and>
   restored table_board (snd (run accepted_inputs (construct table_board 0 picky_options))) \<and>
   completed (fst (run cancelled_inputs (construct table_board 0 picky_options))) \<and>
   premarked_restored table_board
     (snd (run cancelled_inputs (construct table_board 0 picky_options))) \<and>
   dimmed (snd (run cancelled_inputs (construct table_board 0 picky_options))) \<and>
   restored table_board (snd (run cancelled_inputs (construct table_board 0 picky_options)))"
proof -
  note a = markers_restored [of table_board 0 picky_options accepted_inputs]
  note c = markers_restored [of table_board 0 picky_options cancelled_inputs]
  have m: "marked table_board 3 \<and> marked table_board 4 \<and>
      3 \<in> set (allCards table_board) \<and> 4 \<in> set (allCards table_board)"
    by (simp add: table_board_def blank_card_def marked_def)
  have ca: "completed (fst (run accepted_inputs (construct table_board 0 picky_options)))"
    using accepted_run_facts by (simp add: split_beta)
  have cc: "completed (fst (run cancelled_inputs (construct table_board 0 picky_options)))"
    using cancelled_run_facts by (simp add: split_beta)
  from a c m ca cc picky_quiet show ?thesis by blast
qed

lemma strayed_facts:
  "case strayed of
     (pr, g) \<Rightarrow> completed pr \<and> \<not> selected (cards g 6) \<and> \<not> opponentSelected (cards g 6)"
  by (simp add: strayed_def stray_board_def board_defs construct_defs click_defs Let_def)

text \<open>
  The claim as stated fails for a card that \<open>game.allCards\<close> does not list. Card 6
  carries \<open>opponentSelected\<close> before the prompt; the constructor does not clear it, and
  when the click on it has completed the prompt the card is unmarked: the marker of the
  earlier prompt is lost.
\<close>

theorem markers_restored_counterexample:
  "6 \<notin> set (allCards stray_board) \<and> opponentSelected (cards stray_board 6) \<and>
   opponentSelected (cards (snd (construct stray_board 0 no_options)) 6) \<and>
   completed (fst strayed) \<and> \<not> opponentSelected (cards (snd strayed) 6)"
proof -
  have "6 \<notin> set (allCards stray_board) \<and> opponentSelected (cards stray_board 6) \<and>
      opponentSelected (cards (snd (construct stray_board 0 no_options)) 6)"
    by (simp add: stray_board_def board_defs construct_defs Let_def)
  then show ?thesis
    using strayed_facts by (simp add: split_beta)
qed

section \<open>SelectCardPrompt: the working selection\<close>

lemma consistent_steady:
  assumes "consistent pr g" and "allCards g' = allCards g"
    and "\<And>x. selected (cards g' x) = selected (cards g x)"
    and "\<And>x. opponentSelected (cards g' x) = opponentSelected (cards g x)"
    and "\<And>x. controller (cards g' x) = controller (cards g x)"
  shows "consistent pr g'"
proof -
  have "own_marker pr g' x = own_marker pr g x" and "marked g' x = marked g x" for x
    using assms(3-5) by (simp_all add: own_marker_def marked_def)
  with assms(1,2) show ?thesis by (simp add: consistent_def)
qed

lemma selectCard_consistent:
  assumes st: "toggle_steady (props pr)" and k: "consistent pr g" and c: "c \<in> set (allCards g)"
    and ok: "fst (selectCard pr c g)"
  shows "consistent (fst (snd (selectCard pr c g))) (snd (snd (selectCard pr c g))) \<and>
         allCards (snd (snd (selectCard pr c g))) = allCards g \<and>
         props (fst (snd (selectCard pr c g))) = props pr \<and>
         completed (fst (snd (selectCard pr c g))) = completed pr \<and>
         delivered (fst (snd (selectCard pr c g))) = delivered pr"
proof -
  define g1 where "g1 =
    (if choosingPlayer pr \<noteq> controller (cards g c)
     then upd_card c (\<lambda>k. k\<lparr>opponentSelected := \<not> opponentSelected k\<rparr>) g
     else upd_card c (\<lambda>k. k\<lparr>selected := \<not> selected k\<rparr>) g)"
  define pr1 where "pr1 =
    (if selected (cards g1 c) \<or> opponentSelected (cards g1 c)
     then pr\<lparr>selectedCards := selectedCards pr @ [c]\<rparr>
     else pr\<lparr>selectedCards := filter (\<lambda>x. x \<noteq> c) (selectedCards pr)\<rparr>)"
  define g2 where "g2 =
    (case onCardToggle (props pr) of None \<Rightarrow> g1 | Some f \<Rightarrow> f (choosingPlayer pr) c g1)"
  have guard: "\<not> (numCards (props pr) \<noteq> 0 \<and>
      int (length (selectedCards pr)) \<ge> numCards (props pr) \<and> c \<notin> set (selectedCards pr))"
  proof
    assume "numCards (props pr) \<noteq> 0 \<and>
      int (length (selectedCards pr)) \<ge> numCards (props pr) \<and> c \<notin> set (selectedCards pr)"
    then have "selectCard pr c g = (False, pr, g)" by (simp add: selectCard_def)
    with ok show False by simp
  qed
  have res: "selectCard pr c g = (True, pr1, g2)"
    unfolding selectCard_def Let_def g2_def pr1_def g1_def using guard by simp
  have fields: "props pr1 = props pr" "completed pr1 = completed pr"
    "delivered pr1 = delivered pr" "choosingPlayer pr1 = choosingPlayer pr"
    by (simp_all add: pr1_def)
  have k1: "consistent pr1 g1"
  proof (cases "c \<in> set (selectedCards pr)")
    case True
    with k c have "own_marker pr g c" by (auto simp: consistent_def)
    then have off: "\<not> selected (cards g1 c) \<and> \<not> opponentSelected (cards g1 c)"
      by (auto simp: own_marker_def g1_def)
    then have p: "pr1 = pr\<lparr>selectedCards := filter (\<lambda>x. x \<noteq> c) (selectedCards pr)\<rparr>"
      by (simp add: pr1_def)
    show ?thesis
      using k off unfolding consistent_def p
      by (auto simp: g1_def own_marker_def marked_def split: if_splits)
  next
    case False
    with k c have "\<not> marked g c" by (auto simp: consistent_def)
    then have on: "own_marker pr g1 c"
      by (auto simp: own_marker_def g1_def marked_def)
    then have "selected (cards g1 c) \<or> opponentSelected (cards g1 c)"
      by (auto simp: own_marker_def split: if_splits)
    then have p: "pr1 = pr\<lparr>selectedCards := selectedCards pr @ [c]\<rparr>"
      by (simp add: pr1_def)
    have a: "allCards g1 = allCards g" by (simp add: g1_def)
    have o: "\<And>x. x \<noteq> c \<Longrightarrow> cards g1 x = cards g x" by (simp add: g1_def)
    show ?thesis
      unfolding consistent_def p
    proof (intro conjI ballI)
      show "distinct (selectedCards (pr\<lparr>selectedCards := selectedCards pr @ [c]\<rparr>))"
        using k False by (simp add: consistent_def)
      show "set (selectedCards (pr\<lparr>selectedCards := selectedCards pr @ [c]\<rparr>)) \<subseteq> set (allCards g1)"
        using k c a by (auto simp: consistent_def)
      fix x assume "x \<in> set (allCards g1)"
      then have x: "x \<in> set (allCards g)" by (simp add: a)
      show "if x \<in> set (selectedCards (pr\<lparr>selectedCards := selectedCards pr @ [c]\<rparr>))
            then own_marker (pr\<lparr>selectedCards := selectedCards pr @ [c]\<rparr>) g1 x
            else \<not> marked g1 x"
      proof (cases "x = c")
        case True
        with on show ?thesis by (simp add: own_marker_def)
      next
        case ne: False
        from k x have "if x \<in> set (selectedCards pr) then own_marker pr g x else \<not> marked g x"
          by (simp add: consistent_def)
        moreover have "own_marker (pr\<lparr>selectedCards := selectedCards pr @ [c]\<rparr>) g1 x =
            own_marker pr g x" and "marked g1 x = marked g x"
          using o [OF ne] by (simp_all add: own_marker_def marked_def)
        ultimately show ?thesis using ne by simp
      qed
    qed
  qed
  have a1: "allCards g1 = allCards g" by (simp add: g1_def)
  have "consistent pr1 g2 \<and> allCards g2 = allCards g"
  proof (cases "onCardToggle (props pr)")
    case None
    with k1 a1 show ?thesis by (simp add: g2_def)
  next
    case (Some f)
    with st have s: "allCards (f (choosingPlayer pr) c g1) = allCards g1"
      "\<And>x. selected (cards (f (choosingPlayer pr) c g1) x) = selected (cards g1 x)"
      "\<And>x. opponentSelected (cards (f (choosingPlayer pr) c g1) x) = opponentSelected (cards g1 x)"
      "\<And>x. controller (cards (f (choosingPlayer pr) c g1) x) = controller (cards g1 x)"
      by (simp_all add: toggle_steady_def)
    from consistent_steady [OF k1 s] s(1) a1 Some show ?thesis by (simp add: g2_def)
  qed
  with res fields show ?thesis by simp
qed

lemma delivered_selectCard [simp]:
  "delivered (fst (snd (selectCard pr c g))) = delivered pr"
  by (simp add: selectCard_def Let_def)

lemma delivered_onCardClicked:
  "\<exists>d. delivered (fst (snd (onCardClicked pr pl c g))) = delivered pr @ d"
proof -
  obtain ok pr1 g1 where sc: "selectCard pr c g = (ok, pr1, g1)" by (cases "selectCard pr c g")
  have d1: "delivered pr1 = delivered pr"
    using delivered_selectCard [of pr c g] sc by simp
  have "snd (onCardClicked pr pl c g) = (pr, g) \<or>
        snd (onCardClicked pr pl c g) = (pr1, g1) \<or>
        snd (onCardClicked pr pl c g) = fireOnSelect pr1 g1"
    by (simp add: onCardClicked_def sc split: prod.splits)
  then show ?thesis
    using d1 delivered_fireOnSelect [of pr1 g1] by auto
qed

lemma delivered_onMenuCommand_prompt:
  "\<exists>d. delivered (fst (snd (onMenuCommand_prompt pr pl a g))) = delivered pr @ d"
proof -
  have "snd (onMenuCommand_prompt pr pl a g) = (pr, g) \<or>
        snd (onMenuCommand_prompt pr pl a g) = (pr, snd (onMenuCommand (props pr) pl a g)) \<or>
        snd (onMenuCommand_prompt pr pl a g) =
          complete pr (snd (onMenuCommand (props pr) pl a g)) \<or>
        snd (onMenuCommand_prompt pr pl a g) = fireOnSelect pr g \<or>
        snd (onMenuCommand_prompt pr pl a g) = complete pr (onCancel (props pr) pl g)"
    by (simp add: onMenuCommand_prompt_def split: prod.splits)
  then show ?thesis
    using delivered_fireOnSelect [of pr g] by auto
qed

lemma delivered_step: "\<exists>d. delivered (fst (step i st)) = delivered (fst st) @ d"
proof (cases st)
  case (Pair pr g)
  show ?thesis
    using delivered_onCardClicked delivered_onMenuCommand_prompt
    by (cases i) (auto simp: step_def Pair)
qed

lemma delivered_run: "\<exists>d. delivered (fst (run ins st)) = delivered (fst st) @ d"
  unfolding run_def
proof (induction ins arbitrary: st)
  case Nil
  show ?case by simp
next
  case (Cons i ins)
  from delivered_step [of i st] obtain d where "delivered (fst (step i st)) = delivered (fst st) @ d" ..
  moreover from Cons [of "step i st"] obtain e
    where "delivered (fst (fold step ins (step i st))) = delivered (fst (step i st)) @ e" ..
  ultimately show ?case by simp
qed

lemma click_picking:
  assumes ts: "toggle_steady ps" and p: "picking g0 ps st" and c: "c \<in> set (allCards g0)"
    and d: "delivered (fst (step (CardClicked pl c) st)) = []"
  shows "picking g0 ps (step (CardClicked pl c) st)"
proof -
  obtain pr g where st: "st = (pr, g)" by (cases st)
  from p st have k: "consistent pr g" and a: "allCards g = allCards g0" and ps: "props pr = ps"
    and nc: "\<not> completed pr"
    by (simp_all add: picking_def)
  have s: "step (CardClicked pl c) st = snd (onCardClicked pr pl c g)"
    by (simp add: step_def st nc)
  show ?thesis
  proof (cases "pl = choosingPlayer pr \<and> checkCardCondition pr g c \<and> fst (selectCard pr c g)")
    case False
    then have "snd (onCardClicked pr pl c g) = (pr, g)"
      by (auto simp: onCardClicked_def selectCard_def Let_def split: prod.splits if_splits)
    with p st s show ?thesis by simp
  next
    case True
    obtain pr1 g1 where sc: "selectCard pr c g = (True, pr1, g1)"
      using True by (cases "selectCard pr c g") auto
    from selectCard_consistent [of pr g c] ts ps k c a True sc
    have k1: "consistent pr1 g1" "allCards g1 = allCards g" "props pr1 = props pr"
      "completed pr1 = completed pr" "delivered pr1 = delivered pr"
      by simp_all
    show ?thesis
    proof (cases "numCards (props pr1) = 1 \<and> length (selectedCards pr1) = 1 \<and>
                  \<not> multiSelect (props pr1)")
      case fire: True
      with True sc have "snd (onCardClicked pr pl c g) = fireOnSelect pr1 g1"
        by (simp add: onCardClicked_def split: prod.splits)
      with d s delivered_fireOnSelect [of pr1 g1] show ?thesis by simp
    next
      case False
      with True sc have "snd (onCardClicked pr pl c g) = (pr1, g1)"
        by (auto simp: onCardClicked_def split: prod.splits)
      with s k1 a ps nc show ?thesis by (simp add: picking_def)
    qed
  qed
qed

lemma clicks_picking:
  assumes ts: "toggle_steady ps"
  shows "picking g0 ps st \<Longrightarrow> snd ` set cs \<subseteq> set (allCards g0) \<Longrightarrow>
         delivered (fst (run (clicks cs) st)) = [] \<Longrightarrow> picking g0 ps (run (clicks cs) st)"
proof (induction cs arbitrary: st)
  case Nil
  then show ?case by (simp add: run_def clicks_def)
next
  case (Cons x cs)
  obtain pl c where x: "x = (pl, c)" by (cases x)
  have r: "run (clicks (x # cs)) st = run (clicks cs) (step (CardClicked pl c) st)"
    by (simp add: run_def clicks_def x)
  from delivered_run [of "clicks cs" "step (CardClicked pl c) st"] Cons.prems(3) r
  have d: "delivered (fst (step (CardClicked pl c) st)) = []" by auto
  from Cons.prems(2) x have c: "c \<in> set (allCards g0)" by simp
  have "picking g0 ps (step (CardClicked pl c) st)"
    using click_picking [OF ts Cons.prems(1) c d] .
  from Cons.IH [OF this] Cons.prems(2,3) r show ?case by simp
qed

lemma construct_picking: "picking g0 (completeProperties opts) (construct g0 pl opts)"
proof -
  have f: "selectedCards (fst (construct g0 pl opts)) = []"
    "\<not> completed (fst (construct g0 pl opts))"
    "allCards (snd (construct g0 pl opts)) = allCards g0"
    by (simp_all add: construct_def fst_savePreviouslySelectedCards Let_def)
  then show ?thesis
    by (simp add: picking_def consistent_def props_construct construct_unmarked)
qed

text \<open>
  C10, as amended. Take a prompt from its constructor through any sequence of card
  clicks on cards of \<open>game.allCards\<close>, with a caller whose \<open>onCardToggle\<close>, when there
  is one, leaves the markers, the controllers and \<open>game.allCards\<close> alone. As long as
  nothing has been handed to \<open>onSelect\<close> (so the prompt has neither completed nor had a
  selection refused), the working selection holds no card twice and holds exactly the
  cards of \<open>game.allCards\<close> whose \<open>selected\<close> or \<open>opponentSelected\<close> flag is set.
\<close>

theorem selection_consistent:
  assumes "toggle_steady (completeProperties opts)"
    and "snd ` set cs \<subseteq> set (allCards g0)"
    and "run (clicks cs) (construct g0 pl opts) = (pr, g)"
    and "delivered pr = []"
  shows "distinct (selectedCards pr) \<and>
         set (selectedCards pr) = set (filter (marked g) (allCards g0))"
proof -
  have "picking g0 (completeProperties opts) (run (clicks cs) (construct g0 pl opts))"
    using clicks_picking [OF assms(1) construct_picking [of g0 opts pl] assms(2)] assms(3,4)
    by simp
  with assms(3) have k: "consistent pr g" and a: "allCards g = allCards g0"
    by (simp_all add: picking_def)
  have "own_marker pr g c \<Longrightarrow> marked g c" for c
    by (auto simp: own_marker_def marked_def split: if_splits)
  with k a show ?thesis
    by (auto simp: consistent_def split: if_splits)
qed

text \<open>
  Cards 2 and 4 are picked by the script, with card 1 picked and withdrawn and two
  clicks refused on the way.
\<close>

lemma scripted_facts:
  "case scripted of
     (pr, g) \<Rightarrow> selectedCards pr = [2, 4] \<and> delivered pr = [] \<and>
       filter (marked g) (allCards table_board) = [2, 4]"
  by (simp add: scripted_def clicks_def click_script_def board_defs construct_defs click_defs
      Let_def)

theorem selection_consistent_witness:
  "toggle_steady (completeProperties two_options) \<and>
   snd ` set click_script \<subseteq> set (allCards table_board) \<and>
   delivered (fst scripted) = [] \<and> selectedCards (fst scripted) = [2, 4] \<and>
   distinct (selectedCards (fst scripted)) \<and>
   set (selectedCards (fst scripted)) =
     set (filter (marked (snd scripted)) (allCards table_board))"
proof -
  have t: "toggle_steady (completeProperties two_options)"
    by (simp add: toggle_steady_def two_options_def no_options_def completeProperties_def)
  have s: "snd ` set click_script \<subseteq> set (allCards table_board)"
    by (simp add: click_script_def table_board_def)
  have r: "run (clicks click_script) (construct table_board 0 two_options) =
      (fst scripted, snd scripted)"
    by (simp add: scripted_def)
  have f: "selectedCards (fst scripted) = [2, 4] \<and> delivered (fst scripted) = []"
    using scripted_facts by (simp add: split_beta)
  from selection_consistent [OF t s r] f t s show ?thesis by simp
qed

lemma shifted_facts:
  "case run (clicks [(0, 1), (0, 1)]) (construct table_board 0 shifting_options) of
     (pr, g) \<Rightarrow> delivered pr = [] \<and> \<not> completed pr \<and> selectedCards pr = [1, 1]"
  by (simp add: clicks_def shifting_options_def board_defs construct_defs click_defs Let_def)

lemma stray_clicks_facts:
  "case run (clicks [(0, 6), (0, 6)]) (construct stray_board 0 two_options) of
     (pr, g) \<Rightarrow> delivered pr = [] \<and> \<not> completed pr \<and> selectedCards pr = [6, 6] \<and>
       \<not> selected (cards g 6) \<and> opponentSelected (cards g 6)"
  by (simp add: clicks_def stray_board_def board_defs construct_defs click_defs Let_def)

text \<open>
  The claim as stated fails in two ways. When the caller's \<open>onCardToggle\<close> hands the
  picked card 1 over to the other player, the second click on it sets the other marker
  and appends the card again. A card that \<open>game.allCards\<close> does not list keeps the
  marker of an earlier prompt through the constructor, so it is marked while the working
  selection is empty, and the second click on it appends it again.
\<close>

theorem selection_consistent_counterexample:
  "delivered (fst (run (clicks [(0, 1), (0, 1)]) (construct table_board 0 shifting_options))) =
     [] \<and>
   selectedCards (fst (run (clicks [(0, 1), (0, 1)]) (construct table_board 0 shifting_options))) =
     [1, 1] \<and>
   selectedCards (fst (construct stray_board 0 two_options)) = [] \<and>
   marked (snd (construct stray_board 0 two_options)) 6 \<and>
   delivered (fst (run (clicks [(0, 6), (0, 6)]) (construct stray_board 0 two_options))) = [] \<and>
   selectedCards (fst (run (clicks [(0, 6), (0, 6)]) (construct stray_board 0 two_options))) =
     [6, 6]"
proof -
  have "selectedCards (fst (construct stray_board 0 two_options)) = [] \<and>
      marked (snd (construct stray_board 0 two_options)) 6"
    by (simp add: stray_board_def board_defs construct_defs Let_def)
  then show ?thesis
    using shifted_facts stray_clicks_facts by (simp add: split_beta)
qed

end
